theory Spec2Isabelle
  imports Main "HOL-Library.Word" "HOL-Library.Code_Target_Numeral"
begin

chapter \<open>Resume generator backend: security middleware and domain validation\<close>

text \<open>
  A shallow embedding of the Go packages \<open>pkg/security\<close>, \<open>pkg/auth\<close> and
  \<open>internal/domain\<close>. A Go \<open>string\<close> is a sequence of bytes and is modelled as a
  HOL \<open>string\<close> (a list of 8-bit characters); \<open>[]byte(s)\<close> and \<open>string(b)\<close> are
  therefore the identity. An \<open>error\<close> return is a value of a datatype, \<open>nil\<close> is
  \<open>None\<close> or the \<open>Inr\<close> side of a sum.
\<close>

section \<open>Fragments of the Go standard library\<close>

subsection \<open>strings.Split with a one-byte separator\<close>

text \<open>
  \<open>strings.Split(s, sep)\<close> cuts \<open>s\<close> at every occurrence of the separator and
  returns the pieces in order; a string without the separator (the empty string too)
  comes back as the only piece.
\<close>

fun Split :: "char \<Rightarrow> string \<Rightarrow> string list" where
  "Split sep [] = [[]]"
| "Split sep (c # cs) =
     (if c = sep then [] # Split sep cs
      else (case Split sep cs of [] \<Rightarrow> [[c]] | p # ps \<Rightarrow> (c # p) # ps))"

subsection \<open>strings.TrimSpace\<close>

text \<open>
  \<open>strings.TrimSpace\<close> removes the leading and the trailing runes that
  \<open>unicode.IsSpace\<close> accepts. A rune decoded from the string is a space exactly when
  the bytes at that place are the UTF-8 encoding of a code point with the White_Space
  property (an invalid byte decodes to U+FFFD, which is no space), so the function is
  modelled on bytes: \<open>space_runes\<close> lists the encodings of U+0009..U+000D, U+0020,
  U+0085, U+00A0, U+1680, U+2000..U+200A, U+2028, U+2029, U+202F, U+205F and U+3000.
\<close>

definition space_runes :: "string list" where
  "space_runes =
    [[CHR 0x09], [CHR 0x0A], [CHR 0x0B], [CHR 0x0C], [CHR 0x0D], [CHR 0x20],
     [CHR 0xC2, CHR 0x85], [CHR 0xC2, CHR 0xA0],
     [CHR 0xE1, CHR 0x9A, CHR 0x80],
     [CHR 0xE2, CHR 0x80, CHR 0x80], [CHR 0xE2, CHR 0x80, CHR 0x81],
     [CHR 0xE2, CHR 0x80, CHR 0x82], [CHR 0xE2, CHR 0x80, CHR 0x83],
     [CHR 0xE2, CHR 0x80, CHR 0x84], [CHR 0xE2, CHR 0x80, CHR 0x85],
     [CHR 0xE2, CHR 0x80, CHR 0x86], [CHR 0xE2, CHR 0x80, CHR 0x87],
     [CHR 0xE2, CHR 0x80, CHR 0x88], [CHR 0xE2, CHR 0x80, CHR 0x89],
     [CHR 0xE2, CHR 0x80, CHR 0x8A],
     [CHR 0xE2, CHR 0x80, CHR 0xA8], [CHR 0xE2, CHR 0x80, CHR 0xA9],
     [CHR 0xE2, CHR 0x80, CHR 0xAF],
     [CHR 0xE2, CHR 0x81, CHR 0x9F],
     [CHR 0xE3, CHR 0x80, CHR 0x80]]"

text \<open>The encoded space rune that a string starts with, or ends with.\<close>

definition leading_space :: "string \<Rightarrow> string option" where
  "leading_space s = find (\<lambda>q. take (length q) s = q) space_runes"

definition trailing_space :: "string \<Rightarrow> string option" where
  "trailing_space s =
     find (\<lambda>q. length q \<le> length s \<and> drop (length s - length q) s = q) space_runes"

lemma space_runes_nonempty: "q \<in> set space_runes \<Longrightarrow> q \<noteq> []"
  by (auto simp: space_runes_def)

lemma leading_space_Some: "leading_space s = Some q \<Longrightarrow> q \<noteq> [] \<and> take (length q) s = q"
  unfolding leading_space_def
  by (auto simp: find_Some_iff dest!: nth_mem[of _ space_runes] space_runes_nonempty)

lemma trailing_space_Some:
  "trailing_space s = Some q \<Longrightarrow>
     q \<noteq> [] \<and> length q \<le> length s \<and> drop (length s - length q) s = q"
  unfolding trailing_space_def
  by (auto simp: find_Some_iff dest!: nth_mem[of _ space_runes] space_runes_nonempty)

function TrimLeft :: "string \<Rightarrow> string" where
  "TrimLeft s =
     (case leading_space s of None \<Rightarrow> s | Some q \<Rightarrow> TrimLeft (drop (length q) s))"
  by pat_completeness auto
termination
proof (relation "measure length")
  fix s q assume "leading_space s = Some q"
  then have "q \<noteq> []" "take (length q) s = q" using leading_space_Some by blast+
  then have "s \<noteq> []" by auto
  with \<open>q \<noteq> []\<close> show "(drop (length q) s, s) \<in> measure length" by simp
qed simp

function TrimRight :: "string \<Rightarrow> string" where
  "TrimRight s =
     (case trailing_space s of None \<Rightarrow> s
      | Some q \<Rightarrow> TrimRight (take (length s - length q) s))"
  by pat_completeness auto
termination
proof (relation "measure length")
  fix s q assume "trailing_space s = Some q"
  then have "q \<noteq> []" "length q \<le> length s" using trailing_space_Some by blast+
  then show "(take (length s - length q) s, s) \<in> measure length" by (cases q) auto
qed simp

declare TrimLeft.simps [simp del] TrimRight.simps [simp del]

definition TrimSpace :: "string \<Rightarrow> string" where
  "TrimSpace s = TrimRight (TrimLeft s)"

lemma TrimLeft_fixed: "leading_space s = None \<Longrightarrow> TrimLeft s = s"
  by (subst TrimLeft.simps) simp

lemma TrimRight_fixed: "trailing_space s = None \<Longrightarrow> TrimRight s = s"
  by (subst TrimRight.simps) simp

lemma TrimLeft_step: "leading_space s = Some q \<Longrightarrow> TrimLeft s = TrimLeft (drop (length q) s)"
  by (subst TrimLeft.simps) simp

lemma TrimRight_step:
  "trailing_space s = Some q \<Longrightarrow> TrimRight s = TrimRight (take (length s - length q) s)"
  by (subst TrimRight.simps) simp

lemma leading_space_TrimLeft: "leading_space (TrimLeft s) = None"
proof (induction s rule: TrimLeft.induct)
  case (1 s)
  then show ?case
    by (cases "leading_space s") (simp_all add: TrimLeft_fixed TrimLeft_step)
qed

lemma trailing_space_TrimRight: "trailing_space (TrimRight s) = None"
proof (induction s rule: TrimRight.induct)
  case (1 s)
  then show ?case
    by (cases "trailing_space s") (simp_all add: TrimRight_fixed TrimRight_step)
qed

text \<open>Trimming on the right keeps a prefix, so it cannot uncover a leading space.\<close>

lemma TrimRight_is_take: "\<exists>n. TrimRight s = take n s"
proof (induction s rule: TrimRight.induct)
  case (1 s)
  show ?case
  proof (cases "trailing_space s")
    case None
    then have "TrimRight s = take (length s) s" by (simp add: TrimRight_fixed)
    then show ?thesis by blast
  next
    case (Some q)
    with 1 obtain n where
      "TrimRight (take (length s - length q) s) = take n (take (length s - length q) s)"
      by blast
    with Some have "TrimRight s = take (min n (length s - length q)) s"
      by (simp add: TrimRight_step min.commute)
    then show ?thesis by blast
  qed
qed

lemma leading_space_take:
  assumes "leading_space s = None"
  shows "leading_space (take n s) = None"
proof -
  have "\<not> (take (length q) (take n s) = q)" if "q \<in> set space_runes" for q
  proof
    assume eq: "take (length q) (take n s) = q"
    then have "length (take (length q) (take n s)) = length q" by simp
    then have "length q \<le> n" "length q \<le> length s" by simp_all
    with eq have "take (length q) s = q" by (simp add: min.absorb1)
    with assms that show False by (auto simp: leading_space_def find_None_iff)
  qed
  then show ?thesis by (auto simp: leading_space_def find_None_iff)
qed

lemma leading_space_TrimSpace: "leading_space (TrimSpace s) = None"
proof -
  obtain n where "TrimRight (TrimLeft s) = take n (TrimLeft s)"
    using TrimRight_is_take by blast
  then show ?thesis by (simp add: TrimSpace_def leading_space_take leading_space_TrimLeft)
qed

lemma TrimSpace_idem: "TrimSpace (TrimSpace s) = TrimSpace s"
proof -
  have "TrimLeft (TrimSpace s) = TrimSpace s"
    using leading_space_TrimSpace by (rule TrimLeft_fixed)
  moreover have "TrimRight (TrimSpace s) = TrimSpace s"
    unfolding TrimSpace_def using trailing_space_TrimRight by (rule TrimRight_fixed)
  ultimately show ?thesis by (simp add: TrimSpace_def)
qed

text \<open>A string that neither starts nor ends with a space is left as it is.\<close>

lemma TrimSpace_fixed: "leading_space s = None \<Longrightarrow> trailing_space s = None \<Longrightarrow> TrimSpace s = s"
  by (simp add: TrimSpace_def TrimLeft_fixed TrimRight_fixed)

subsection \<open>Decimal numbers: strconv.Itoa and the verb %d\<close>

text \<open>An ASCII digit and its value.\<close>

definition isDigit :: "char \<Rightarrow> bool" where
  "isDigit c = (48 \<le> (of_char c :: nat) \<and> (of_char c :: nat) \<le> 57)"

definition digit :: "char \<Rightarrow> nat" where
  "digit c = of_char c - 48"

text \<open>The decimal digits of a number, most significant first.\<close>

function digits10 :: "nat \<Rightarrow> string" where
  "digits10 n =
     (if n < 10 then [char_of (48 + n)] else digits10 (n div 10) @ [char_of (48 + n mod 10)])"
  by pat_completeness auto
termination
  by (relation "measure id") auto

declare digits10.simps [simp del]

definition Itoa :: "int \<Rightarrow> string" where
  "Itoa i = (if i < 0 then CHR ''-'' # digits10 (nat (- i)) else digits10 (nat i))"

definition parse_decimal :: "string \<Rightarrow> nat" where
  "parse_decimal tok = foldl (\<lambda>acc c. 10 * acc + digit c) 0 tok"


lemma digit_char_of: "d < 10 \<Longrightarrow> digit (char_of (48 + d)) = d"
  by (simp add: digit_def)

lemma isDigit_char_of: "(d::nat) < 10 \<Longrightarrow> isDigit (char_of (48 + d))"
  by (simp add: isDigit_def)

lemma digits10_nonempty: "digits10 n \<noteq> []"
  by (subst digits10.simps) simp

lemma digits10_digits: "\<forall>c\<in>set (digits10 n). isDigit c"
proof (induction n rule: digits10.induct)
  case (1 n)
  show ?case
  proof (cases "n < 10")
    case True
    then show ?thesis by (subst digits10.simps) (simp add: isDigit_char_of)
  next
    case False
    with 1 show ?thesis by (subst digits10.simps) (simp add: isDigit_char_of)
  qed
qed

lemma parse_decimal_digits10: "parse_decimal (digits10 n) = n"
proof (induction n rule: digits10.induct)
  case (1 n)
  show ?case
  proof (cases "n < 10")
    case True
    then show ?thesis by (subst digits10.simps) (simp add: parse_decimal_def digit_char_of)
  next
    case False
    with 1 have "parse_decimal (digits10 (n div 10)) = n div 10" by simp
    with False show ?thesis
      by (subst digits10.simps) (simp add: parse_decimal_def digit_char_of)
  qed
qed


text \<open>What the scanner of \<open>fmt\<close> does for the verb \<open>%d\<close>.\<close>

function scan_SkipSpace :: "string \<Rightarrow> string option" where
  "scan_SkipSpace s =
     (case leading_space s of
        None \<Rightarrow> Some s
      | Some q \<Rightarrow> if q = [CHR 0x0A] then None else scan_SkipSpace (drop (length q) s))"
  by pat_completeness auto
termination
proof (relation "measure length")
  fix s q assume "leading_space s = Some q"
  then have "q \<noteq> []" "take (length q) s = q" using leading_space_Some by blast+
  then have "s \<noteq> []" by auto
  with \<open>q \<noteq> []\<close> show "(drop (length q) s, s) \<in> measure length" by simp
qed simp

declare scan_SkipSpace.simps [simp del]

definition scanNumber :: "string \<Rightarrow> (string \<times> string) option" where
  "scanNumber s =
     (let tok = takeWhile isDigit s
      in if tok = [] then None else Some (tok, dropWhile isDigit s))"

definition scanInt :: "string \<Rightarrow> (int \<times> string) option" where
  "scanInt s =
     (let neg = (s \<noteq> [] \<and> hd s = CHR ''-'');
          s1 = (if s \<noteq> [] \<and> (hd s = CHR ''+'' \<or> hd s = CHR ''-'') then tl s else s)
      in case scanNumber s1 of
           None \<Rightarrow> None
         | Some (tok, rest) \<Rightarrow>
             (let v = (if neg then - int (parse_decimal tok) else int (parse_decimal tok))
              in if - (2 ^ 63) \<le> v \<and> v < 2 ^ 63 then Some (v, rest) else None))"

definition scanUint :: "nat \<Rightarrow> string \<Rightarrow> (int \<times> string) option" where
  "scanUint bitSize s =
     (case scanNumber s of
        None \<Rightarrow> None
      | Some (tok, rest) \<Rightarrow>
          (let v = parse_decimal tok
           in if v < 2 ^ bitSize then Some (int v, rest) else None))"

datatype operand = IntPtr | Uint32Ptr | Uint8Ptr

definition scanOne :: "operand \<Rightarrow> string \<Rightarrow> (int \<times> string) option" where
  "scanOne arg s =
     (case arg of IntPtr \<Rightarrow> scanInt s | Uint32Ptr \<Rightarrow> scanUint 32 s | Uint8Ptr \<Rightarrow> scanUint 8 s)"

fun doScanf :: "string \<Rightarrow> operand list \<Rightarrow> string \<Rightarrow> int list option" where
  "doScanf [] a inp = (if a = [] then Some [] else None)"
| "doScanf (c # fmt) a inp =
     (if c = CHR ''%'' then
        (case fmt of
           [] \<Rightarrow> None
         | verb # fmt' \<Rightarrow>
             if verb \<noteq> CHR ''d'' then None
             else (case a of
                     [] \<Rightarrow> None
                   | arg # a' \<Rightarrow>
                       (case scan_SkipSpace inp of
                          None \<Rightarrow> None
                        | Some inp1 \<Rightarrow>
                            (case scanOne arg inp1 of
                               None \<Rightarrow> None
                             | Some (v, rest) \<Rightarrow> map_option ((#) v) (doScanf fmt' a' rest)))))
      else (case inp of
              [] \<Rightarrow> None
            | x # rest \<Rightarrow> if x = c then doScanf fmt a rest else None))"

definition Sscanf :: "string \<Rightarrow> string \<Rightarrow> operand list \<Rightarrow> int list option" where
  "Sscanf str format a = doScanf format a str"

subsection \<open>encoding/base64\<close>

text \<open>
  The standard alphabet, with padding (\<open>StdEncoding\<close>) and without
  (\<open>RawStdEncoding\<close>). Three bytes make four 6-bit groups; a last group of one or
  two bytes makes two or three. The decoders are the library's default, non-strict
  ones: they skip carriage returns and line feeds and do not look at the unused low
  bits of a last incomplete group.
\<close>

definition b64_alphabet :: string where
  "b64_alphabet = ''ABCDEFGHIJKLMNOPQRSTUVWXYZabcdefghijklmnopqrstuvwxyz0123456789+/''"

definition b64_char :: "nat \<Rightarrow> char" where
  "b64_char n = b64_alphabet ! n"

definition b64_val :: "char \<Rightarrow> nat option" where
  "b64_val c = map_of (zip b64_alphabet [0..<64]) c"

fun sextets :: "nat list \<Rightarrow> nat list" where
  "sextets (a # b # c # r) =
     [a div 4, (a mod 4) * 16 + b div 16, (b mod 16) * 4 + c div 64, c mod 64] @ sextets r"
| "sextets [a, b] = [a div 4, (a mod 4) * 16 + b div 16, (b mod 16) * 4]"
| "sextets [a] = [a div 4, (a mod 4) * 16]"
| "sextets [] = []"

fun octets :: "nat list \<Rightarrow> nat list option" where
  "octets (a # b # c # d # r) =
     map_option (\<lambda>t. [a * 4 + b div 16, (b mod 16) * 16 + c div 4, (c mod 4) * 64 + d] @ t)
       (octets r)"
| "octets [a, b, c] = Some [a * 4 + b div 16, (b mod 16) * 16 + c div 4]"
| "octets [a, b] = Some [a * 4 + b div 16]"
| "octets [a] = None"
| "octets [] = Some []"

definition RawStdEncoding_EncodeToString :: "string \<Rightarrow> string" where
  "RawStdEncoding_EncodeToString src = map b64_char (sextets (map of_char src))"

definition StdEncoding_EncodeToString :: "string \<Rightarrow> string" where
  "StdEncoding_EncodeToString src =
     RawStdEncoding_EncodeToString src @ replicate ((3 - length src mod 3) mod 3) (CHR ''='')"

definition skip_newlines :: "string \<Rightarrow> string" where
  "skip_newlines s = filter (\<lambda>c. c \<noteq> CHR 0x0A \<and> c \<noteq> CHR 0x0D) s"

definition RawStdEncoding_DecodeString :: "string \<Rightarrow> string option" where
  "RawStdEncoding_DecodeString s =
     map_option (map char_of)
       (Option.bind (those (map b64_val (skip_newlines s))) octets)"

definition StdEncoding_DecodeString :: "string \<Rightarrow> string option" where
  "StdEncoding_DecodeString s =
     (let cs = skip_newlines s;
          n = length cs;
          body = (if 2 \<le> n \<and> drop (n - 2) cs = ''=='' then take (n - 2) cs
                  else if 1 \<le> n \<and> drop (n - 1) cs = ''='' then take (n - 1) cs
                  else cs)
      in if n mod 4 \<noteq> 0 then None else RawStdEncoding_DecodeString body)"



lemma b64_alphabet_length: "length b64_alphabet = 64"
  by (simp add: b64_alphabet_def)

lemma b64_alphabet_distinct: "distinct b64_alphabet"
  by (simp add: b64_alphabet_def)

lemma b64_val_char: "n < 64 \<Longrightarrow> b64_val (b64_char n) = Some n"
  unfolding b64_val_def b64_char_def
  using map_of_zip_nth[of b64_alphabet "[0..<64]" n] b64_alphabet_length b64_alphabet_distinct
  by simp

lemma b64_char_in: "n < 64 \<Longrightarrow> b64_char n \<in> set b64_alphabet"
  by (simp add: b64_char_def b64_alphabet_length)

lemma sextets_bound: "\<forall>x\<in>set bs. x < 256 \<Longrightarrow> \<forall>y\<in>set (sextets bs). y < 64"
  by (induction bs rule: sextets.induct) (auto simp: less_mult_imp_div_less)

lemma regroup:
  fixes a b c :: nat
  assumes "a < 256" "b < 256" "c < 256"
  shows "a div 4 * 4 + (a mod 4 * 16 + b div 16) div 16 = a"
    and "(a mod 4 * 16 + b div 16) mod 16 * 16 + (b mod 16 * 4 + c div 64) div 4 = b"
    and "(b mod 16 * 4 + c div 64) mod 4 * 64 + c mod 64 = c"
    and "(a mod 4 * 16 + b div 16) mod 16 * 16 + (b mod 16 * 4) div 4 = b"
    and "a div 4 * 4 + (a mod 4 * 16) div 16 = a"
  using assms by (simp_all add: div_mult2_eq[symmetric] mod_mult2_eq)

lemma octets_sextets: "\<forall>x\<in>set bs. x < 256 \<Longrightarrow> octets (sextets bs) = Some bs"
proof (induction bs rule: sextets.induct)
  case (1 a b c r)
  then have "a < 256" "b < 256" "c < 256" and r: "octets (sextets r) = Some r" by simp_all
  with r show ?case by (simp add: regroup)
next
  case (2 a b)
  then have "a < 256" "b < 256" by simp_all
  then show ?case by (simp add: regroup)
next
  case (3 a)
  then have "a < 256" by simp
  then show ?case by (simp add: regroup)
qed simp

lemma those_map_Some: "\<forall>x\<in>set xs. f x = Some (g x) \<Longrightarrow> those (map f xs) = Some (map g xs)"
  by (induction xs) simp_all

lemma of_char_bound: "\<forall>x\<in>set (map of_char (src :: string)). x < (256 :: nat)"
  by simp

lemma Raw_chars: "set (RawStdEncoding_EncodeToString src) \<subseteq> set b64_alphabet"
  using sextets_bound[OF of_char_bound, of src]
  by (auto simp: RawStdEncoding_EncodeToString_def b64_char_in)

lemma skip_newlines_id: "CHR 0x0A \<notin> set s \<Longrightarrow> CHR 0x0D \<notin> set s \<Longrightarrow> skip_newlines s = s"
  unfolding skip_newlines_def by (induction s) auto

lemma b64_alphabet_excludes:
  "CHR 0x0A \<notin> set b64_alphabet" "CHR 0x0D \<notin> set b64_alphabet"
  "CHR ''='' \<notin> set b64_alphabet" "CHR ''$'' \<notin> set b64_alphabet"
  "CHR ''|'' \<notin> set b64_alphabet"
  by (simp_all add: b64_alphabet_def)

lemma Raw_decode_encode: "RawStdEncoding_DecodeString (RawStdEncoding_EncodeToString src) = Some src"
proof -
  let ?e = "RawStdEncoding_EncodeToString src"
  have nl: "skip_newlines ?e = ?e"
    using Raw_chars[of src] b64_alphabet_excludes(1,2) by (intro skip_newlines_id) auto
  have b: "\<forall>y\<in>set (sextets (map of_char src)). y < 64"
    using sextets_bound[OF of_char_bound] .
  have "those (map b64_val ?e) = Some (sextets (map of_char src))"
    unfolding RawStdEncoding_EncodeToString_def map_map
    using those_map_Some[of "sextets (map of_char src)" "b64_val \<circ> b64_char" id] b
    by (simp add: b64_val_char)
  moreover have "octets (sextets (map of_char src)) = Some (map of_char src)"
    using octets_sextets[OF of_char_bound] .
  ultimately show ?thesis
    by (simp add: RawStdEncoding_DecodeString_def nl comp_def)
qed


lemma length_sextets: "length (sextets bs) = (4 * length bs + 2) div 3"
  by (induction bs rule: sextets.induct) simp_all

lemma length_Raw: "length (RawStdEncoding_EncodeToString src) = (4 * length src + 2) div 3"
  by (simp add: RawStdEncoding_EncodeToString_def length_sextets)

lemma Raw_no_pad: "CHR ''='' \<notin> set (RawStdEncoding_EncodeToString src)"
  using Raw_chars[of src] b64_alphabet_excludes(3) by auto

lemma Std_body:
  fixes r :: string
  assumes "CHR ''='' \<notin> set r" "k \<le> 2" "k = 0 \<or> r \<noteq> []"
  defines "cs \<equiv> r @ replicate k (CHR ''='')"
  shows "(if 2 \<le> length cs \<and> drop (length cs - 2) cs = ''=='' then take (length cs - 2) cs
          else if 1 \<le> length cs \<and> drop (length cs - 1) cs = ''='' then take (length cs - 1) cs
          else cs) = r"
proof -
  consider "k = 0" | "k = 1" "r \<noteq> []" | "k = 2" using assms(2,3) by linarith
  then show ?thesis
  proof cases
    case 1
    then have cs: "cs = r" by (simp add: cs_def)
    have "drop (length r - 2) r \<noteq> ''==''"
      using assms(1) by (metis in_set_dropD list.set_intros(1))
    moreover have "drop (length r - 1) r \<noteq> ''=''"
      using assms(1) by (metis in_set_dropD list.set_intros(1))
    ultimately show ?thesis by (simp add: cs)
  next
    case 2
    then have cs: "cs = r @ ''=''" by (simp add: cs_def)
    from 2 obtain r' x where r: "r = r' @ [x]" by (cases r rule: rev_cases) auto
    with assms(1) have "x \<noteq> CHR ''=''" by auto
    then show ?thesis by (simp add: cs r)
  next
    case 3
    then have cs: "cs = r @ ''==''" by (simp add: cs_def numeral_2_eq_2)
    then show ?thesis by simp
  qed
qed

lemma len_pad: "((4 * n + 2) div 3 + (3 - n mod 3) mod 3) mod 4 = (0::nat)"
proof -
  define q r where "q = n div 3" and "r = n mod 3"
  then have n: "n = 3 * q + r" and "r < 3" by simp_all
  have d: "(4 * n + 2) div 3 = 4 * q + (4 * r + 2) div 3"
    unfolding n by arith
  have "(4 * q + (4 * r + 2) div 3 + (3 - r) mod 3) mod 4 = 0"
  proof -
    from \<open>r < 3\<close> consider "r = 0" | "r = 1" | "r = 2" by linarith
    then show ?thesis by cases simp_all
  qed
  then show ?thesis unfolding d r_def by simp
qed

lemma Std_decode_encode: "StdEncoding_DecodeString (StdEncoding_EncodeToString src) = Some src"
proof -
  let ?r = "RawStdEncoding_EncodeToString src"
  let ?k = "(3 - length src mod 3) mod 3"
  let ?cs = "?r @ replicate ?k (CHR ''='')"
  have nl: "skip_newlines ?cs = ?cs"
    using Raw_chars[of src] b64_alphabet_excludes(1,2)
    by (intro skip_newlines_id) (auto split: if_splits)
  have k2: "?k \<le> 2" by arith
  have nonempty: "?k = 0 \<or> ?r \<noteq> []"
  proof (cases "src = []")
    case False
    then have "0 < length src" by simp
    then have "0 < (4 * length src + 2) div 3" by arith
    then have "0 < length ?r" by (simp only: length_Raw)
    then show ?thesis by simp
  qed simp
  have body: "(if 2 \<le> length ?cs \<and> drop (length ?cs - 2) ?cs = ''=='' then take (length ?cs - 2) ?cs
          else if 1 \<le> length ?cs \<and> drop (length ?cs - 1) ?cs = ''='' then take (length ?cs - 1) ?cs
          else ?cs) = ?r"
    using Std_body[OF Raw_no_pad k2 nonempty] .
  have len: "length ?cs mod 4 = 0"
    unfolding length_append length_replicate length_Raw by (rule len_pad)
  show ?thesis
    unfolding StdEncoding_DecodeString_def StdEncoding_EncodeToString_def nl Let_def body
    using len by (simp add: Raw_decode_encode)
qed

subsection \<open>Separators in encoded text\<close>

lemma Split_none: "sep \<notin> set a \<Longrightarrow> Split sep a = [a]"
  by (induction a) auto

lemma Split_append: "sep \<notin> set a \<Longrightarrow> Split sep (a @ sep # rest) = a # Split sep rest"
  by (induction a) auto

lemma Split_nonempty: "Split sep s \<noteq> []"
  by (induction s) (auto split: list.splits)

lemma Std_chars: "set (StdEncoding_EncodeToString src) \<subseteq> insert (CHR ''='') (set b64_alphabet)"
  using Raw_chars[of src] by (auto simp: StdEncoding_EncodeToString_def)

lemma Std_no_bar: "CHR ''|'' \<notin> set (StdEncoding_EncodeToString src)"
  using Std_chars[of src] b64_alphabet_excludes(5) by auto

lemma isDigit_not_bar: "isDigit c \<Longrightarrow> c \<noteq> CHR ''|'' \<and> c \<noteq> CHR ''$''"
  by (auto simp: isDigit_def)

lemma Itoa_no_bar: "CHR ''|'' \<notin> set (Itoa i)"
  using digits10_digits isDigit_not_bar by (auto simp: Itoa_def)

subsection \<open>Scanning what was printed\<close>

text \<open>No encoded space rune starts or ends with an ASCII digit.\<close>

lemma space_runes_hd: "q \<in> set space_runes \<Longrightarrow> \<not> isDigit (hd q)"
  by (auto simp: space_runes_def isDigit_def)

lemma space_runes_last: "q \<in> set space_runes \<Longrightarrow> \<not> isDigit (last q)"
  by (auto simp: space_runes_def isDigit_def)

lemma leading_space_digit:
  assumes "s \<noteq> []" "isDigit (hd s)"
  shows "leading_space s = None"
proof -
  have "take (length q) s \<noteq> q" if q: "q \<in> set space_runes" for q
  proof
    assume eq: "take (length q) s = q"
    from q have "q \<noteq> []" by (rule space_runes_nonempty)
    with assms(1) have "hd (take (length q) s) = hd s" by (cases s; cases q) auto
    with eq assms(2) space_runes_hd[OF q] show False by simp
  qed
  then show ?thesis by (auto simp: leading_space_def find_None_iff)
qed

lemma trailing_space_digit:
  assumes "s \<noteq> []" "isDigit (last s)"
  shows "trailing_space s = None"
proof -
  have "\<not> (length q \<le> length s \<and> drop (length s - length q) s = q)"
    if q: "q \<in> set space_runes" for q
  proof
    assume eq: "length q \<le> length s \<and> drop (length s - length q) s = q"
    from q have "q \<noteq> []" by (rule space_runes_nonempty)
    with eq have "length s - length q < length s" by (cases q) auto
    then have "last (drop (length s - length q) s) = last s" by simp
    with eq assms(2) space_runes_last[OF q] show False by simp
  qed
  then show ?thesis by (auto simp: trailing_space_def find_None_iff)
qed

lemma hd_digits10: "isDigit (hd (digits10 n))"
  using digits10_digits[of n] digits10_nonempty[of n] by (cases "digits10 n") auto

lemma scanNumber_digits10:
  assumes "rest = [] \<or> \<not> isDigit (hd rest)"
  shows "scanNumber (digits10 n @ rest) = Some (digits10 n, rest)"
proof -
  have t: "takeWhile isDigit rest = []" and d: "dropWhile isDigit rest = rest"
    using assms by (cases rest; auto)+
  have "takeWhile isDigit (digits10 n @ rest) = digits10 n"
    using digits10_digits[of n] by (simp add: takeWhile_append2 t)
  moreover have "dropWhile isDigit (digits10 n @ rest) = rest"
    using digits10_digits[of n] by (simp add: dropWhile_append2 d)
  ultimately show ?thesis by (simp add: scanNumber_def digits10_nonempty)
qed

lemma scan_SkipSpace_digits10: "scan_SkipSpace (digits10 n @ rest) = Some (digits10 n @ rest)"
proof -
  have "leading_space (digits10 n @ rest) = None"
    using hd_digits10[of n] digits10_nonempty[of n] by (intro leading_space_digit) auto
  then show ?thesis by (subst scan_SkipSpace.simps) simp
qed

lemma scanUint_digits10:
  assumes "rest = [] \<or> \<not> isDigit (hd rest)" "n < 2 ^ bitSize"
  shows "scanUint bitSize (digits10 n @ rest) = Some (int n, rest)"
  using assms by (simp add: scanUint_def scanNumber_digits10 parse_decimal_digits10)

lemma scanInt_Itoa:
  assumes "rest = [] \<or> \<not> isDigit (hd rest)" "- (2 ^ 63) \<le> v" "v < 2 ^ 63"
  shows "scanInt (Itoa v @ rest) = Some (v, rest)"
proof (cases "v < 0")
  case True
  then show ?thesis
    using assms by (simp add: scanInt_def Itoa_def scanNumber_digits10 parse_decimal_digits10)
next
  case False
  have h: "hd (digits10 (nat v) @ rest) \<noteq> CHR ''+'' \<and> hd (digits10 (nat v) @ rest) \<noteq> CHR ''-''"
    using hd_digits10[of "nat v"] digits10_nonempty[of "nat v"] by (auto simp: isDigit_def)
  with False show ?thesis
    using assms by (simp add: scanInt_def Itoa_def scanNumber_digits10 parse_decimal_digits10 digits10_nonempty)
qed

lemma scan_SkipSpace_Itoa: "scan_SkipSpace (Itoa v @ rest) = Some (Itoa v @ rest)"
proof (cases "v < 0")
  case True
  have "leading_space (CHR ''-'' # digits10 (nat (- v)) @ rest) = None"
    by (simp add: leading_space_def space_runes_def)
  with True show ?thesis by (subst scan_SkipSpace.simps) (simp add: Itoa_def)
next
  case False
  then show ?thesis by (simp add: Itoa_def scan_SkipSpace_digits10)
qed

lemma Sscanf_version:
  assumes "- (2 ^ 63) \<le> v" "v < 2 ^ 63"
  shows "Sscanf (''v='' @ Itoa v) ''v=%d'' [IntPtr] = Some [v]"
  using scanInt_Itoa[of "[]" v] scan_SkipSpace_Itoa[of v "[]"] assms
  by (simp add: Sscanf_def scanOne_def)

lemma Sscanf_params:
  assumes "m < 2 ^ 32" "t < 2 ^ 32" "p < 2 ^ 8"
  shows "Sscanf (''m='' @ digits10 m @ '',t='' @ digits10 t @ '',p='' @ digits10 p)
           ''m=%d,t=%d,p=%d'' [Uint32Ptr, Uint32Ptr, Uint8Ptr]
         = Some [int m, int t, int p]"
proof -
  have c: "\<not> isDigit (CHR '','')" by (simp add: isDigit_def)
  have 3: "scanUint 8 (digits10 p) = Some (int p, [])"
    using scanUint_digits10[of "[]" p 8] assms(3) by simp
  have 2: "scanUint 32 (digits10 t @ '',p='' @ digits10 p) = Some (int t, '',p='' @ digits10 p)"
    using scanUint_digits10[of "'',p='' @ digits10 p" t 32] assms(2) c by simp
  have 1: "scanUint 32 (digits10 m @ '',t='' @ digits10 t @ '',p='' @ digits10 p)
             = Some (int m, '',t='' @ digits10 t @ '',p='' @ digits10 p)"
    using scanUint_digits10[of "'',t='' @ digits10 t @ '',p='' @ digits10 p" m 32] assms(1) c by simp
  have s3: "scan_SkipSpace (digits10 p) = Some (digits10 p)"
    using scan_SkipSpace_digits10[of p "[]"] by simp
  show ?thesis
    using 1 2 3 s3 scan_SkipSpace_digits10[of t "'',p='' @ digits10 p"]
      scan_SkipSpace_digits10[of m "'',t='' @ digits10 t @ '',p='' @ digits10 p"]
    by (simp add: Sscanf_def scanOne_def)
qed

section \<open>Security headers (pkg/security/headers.go)\<close>

subsection \<open>The standard library's status texts\<close>

text \<open>
  \<open>http.StatusText(code)\<close> is a switch over the registered HTTP status codes; every
  other code yields the empty string.
\<close>

definition StatusText_table :: "(int \<times> string) list" where
  "StatusText_table =
    [(100, ''Continue''), (101, ''Switching Protocols''), (102, ''Processing''),
     (103, ''Early Hints''),
     (200, ''OK''), (201, ''Created''), (202, ''Accepted''),
     (203, ''Non-Authoritative Information''), (204, ''No Content''),
     (205, ''Reset Content''), (206, ''Partial Content''), (207, ''Multi-Status''),
     (208, ''Already Reported''), (226, ''IM Used''),
     (300, ''Multiple Choices''), (301, ''Moved Permanently''), (302, ''Found''),
     (303, ''See Other''), (304, ''Not Modified''), (305, ''Use Proxy''),
     (307, ''Temporary Redirect''), (308, ''Permanent Redirect''),
     (400, ''Bad Request''), (401, ''Unauthorized''), (402, ''Payment Required''),
     (403, ''Forbidden''), (404, ''Not Found''), (405, ''Method Not Allowed''),
     (406, ''Not Acceptable''), (407, ''Proxy Authentication Required''),
     (408, ''Request Timeout''), (409, ''Conflict''), (410, ''Gone''),
     (411, ''Length Required''), (412, ''Precondition Failed''),
     (413, ''Request Entity Too Large''), (414, ''Request URI Too Long''),
     (415, ''Unsupported Media Type''), (416, ''Requested Range Not Satisfiable''),
     (417, ''Expectation Failed''), (418, ''I'' @ [CHR 0x27] @ ''m a teapot''),
     (421, ''Misdirected Request''), (422, ''Unprocessable Entity''), (423, ''Locked''),
     (424, ''Failed Dependency''), (425, ''Too Early''), (426, ''Upgrade Required''),
     (428, ''Precondition Required''), (429, ''Too Many Requests''),
     (431, ''Request Header Fields Too Large''),
     (451, ''Unavailable For Legal Reasons''),
     (500, ''Internal Server Error''), (501, ''Not Implemented''), (502, ''Bad Gateway''),
     (503, ''Service Unavailable''), (504, ''Gateway Timeout''),
     (505, ''HTTP Version Not Supported''), (506, ''Variant Also Negotiates''),
     (507, ''Insufficient Storage''), (508, ''Loop Detected''), (510, ''Not Extended''),
     (511, ''Network Authentication Required'')]"

definition StatusText :: "int \<Rightarrow> string" where
  "StatusText code = (case map_of StatusText_table code of Some s \<Rightarrow> s | None \<Rightarrow> [])"

subsection \<open>Configuration and middleware\<close>

record HeadersConfig =
  HSTS :: bool
  HSTSMaxAge :: int
  HSTSIncludeSubdomains :: bool
  HSTSPreload :: bool
  ContentSecurityPolicy :: string
  XFrameOptions :: string
  XContentTypeOptions :: string

definition DefaultHeadersConfig :: HeadersConfig where
  "DefaultHeadersConfig =
    \<lparr> HSTS = True,
      HSTSMaxAge = 31536000,
      HSTSIncludeSubdomains = True,
      HSTSPreload = True,
      ContentSecurityPolicy =
        ''default-src '' @ [CHR 0x27] @ ''self'' @ [CHR 0x27] @
        ''; script-src '' @ [CHR 0x27] @ ''self'' @ [CHR 0x27] @
        ''; img-src '' @ [CHR 0x27] @ ''self'' @ [CHR 0x27] @ '' data:'' @
        ''; style-src '' @ [CHR 0x27] @ ''self'' @ [CHR 0x27] @ '' '' @
          [CHR 0x27] @ ''unsafe-inline'' @ [CHR 0x27] @
        ''; connect-src '' @ [CHR 0x27] @ ''self'' @ [CHR 0x27] @
        ''; frame-ancestors '' @ [CHR 0x27] @ ''none'' @ [CHR 0x27] @
        ''; form-action '' @ [CHR 0x27] @ ''self'' @ [CHR 0x27] @
        ''; base-uri '' @ [CHR 0x27] @ ''self'' @ [CHR 0x27] @
        ''; object-src '' @ [CHR 0x27] @ ''none'' @ [CHR 0x27],
      XFrameOptions = ''DENY'',
      XContentTypeOptions = ''nosniff'' \<rparr>"

text \<open>
  The response header is a map from header name to value; \<open>w.Header().Set(k, v)\<close>
  replaces the entry of \<open>k\<close>.
\<close>

type_synonym Header = "string \<rightharpoonup> string"

definition Header_Set :: "Header \<Rightarrow> string \<Rightarrow> string \<Rightarrow> Header" where
  "Header_Set h k v = h(k \<mapsto> v)"

text \<open>
  The value built for \<open>Strict-Transport-Security\<close>: the source concatenates
  \<open>"max-age="\<close> with \<open>http.StatusText(config.HSTSMaxAge)\<close>.
\<close>

definition hsts_value :: "HeadersConfig \<Rightarrow> string" where
  "hsts_value config =
    (if 0 < HSTSMaxAge config then
       (let value = ''max-age='' @ StatusText (HSTSMaxAge config);
            value = (if HSTSIncludeSubdomains config then value @ ''; includeSubDomains'' else value);
            value = (if HSTSPreload config then value @ ''; preload'' else value)
        in value)
     else [])"

text \<open>
  \<open>SecurityHeaders config\<close> applied to the header of the response writer; the result
  is the header that the next handler sees.
\<close>

definition SecurityHeaders :: "HeadersConfig \<Rightarrow> Header \<Rightarrow> Header" where
  "SecurityHeaders config w =
    (let w = (if HSTS config \<and> hsts_value config \<noteq> []
              then Header_Set w ''Strict-Transport-Security'' (hsts_value config) else w);
         w = (if ContentSecurityPolicy config \<noteq> []
              then Header_Set w ''Content-Security-Policy'' (ContentSecurityPolicy config) else w);
         w = (if XFrameOptions config \<noteq> []
              then Header_Set w ''X-Frame-Options'' (XFrameOptions config) else w);
         w = (if XContentTypeOptions config \<noteq> []
              then Header_Set w ''X-Content-Type-Options'' (XContentTypeOptions config) else w);
         w = Header_Set w ''Referrer-Policy'' ''strict-origin-when-cross-origin'';
         w = Header_Set w ''X-XSS-Protection'' ''1; mode=block'';
         w = Header_Set w ''Permissions-Policy''
              ''accelerometer=(), camera=(), geolocation=(), gyroscope=(), magnetometer=(), microphone=(), payment=(), usb=()'';
         w = Header_Set w ''Cache-Control'' ''no-store, max-age=0'';
         w = Header_Set w ''Pragma'' ''no-cache'';
         w = Header_Set w ''X-Permitted-Cross-Domain-Policies'' ''none''
     in w)"

subsection \<open>The HSTS value under the default configuration\<close>

lemma StatusText_unregistered: "600 \<le> code \<Longrightarrow> StatusText code = []"
  by (simp add: StatusText_def StatusText_table_def)

lemma hsts_value_default: "hsts_value DefaultHeadersConfig = ''max-age=; includeSubDomains; preload''"
  by (simp add: hsts_value_def DefaultHeadersConfig_def StatusText_unregistered)

text \<open>
  Claim C2. With HSTS enabled and the default max-age of 31536000 seconds, the
  middleware is expected to send \<open>max-age=31536000; includeSubDomains; preload\<close>. The
  source renders the number with \<open>http.StatusText\<close>, which knows no status 31536000, so
  the header that is sent has an empty max-age.
\<close>

theorem C2_hsts_header_default:
  "SecurityHeaders DefaultHeadersConfig w ''Strict-Transport-Security''
     = Some ''max-age=; includeSubDomains; preload''"
  unfolding SecurityHeaders_def hsts_value_default
  by (simp add: Header_Set_def DefaultHeadersConfig_def Let_def)

section \<open>Domain entities (internal/domain)\<close>

subsection \<open>time.Parse with the layout 2006-01-02\<close>

text \<open>
  With this layout \<open>time.Parse\<close> reads exactly four digits of year, a dash, two
  digits of month, a dash and two digits of day, and nothing else; it rejects a month
  outside 1..12 and a day outside the month (February has 29 days in a leap year). The
  result is midnight UTC of that day, modelled by the calendar date.
\<close>

record Date =
  year :: nat
  month :: nat
  day :: nat

definition isLeap :: "nat \<Rightarrow> bool" where
  "isLeap y = (y mod 4 = 0 \<and> (y mod 100 \<noteq> 0 \<or> y mod 400 = 0))"

definition daysIn :: "nat \<Rightarrow> nat \<Rightarrow> nat" where
  "daysIn m y =
     (if m = 2 then (if isLeap y then 29 else 28)
      else if m = 4 \<or> m = 6 \<or> m = 9 \<or> m = 11 then 30 else 31)"

definition time_Parse :: "string \<Rightarrow> Date option" where
  "time_Parse v =
     (if length v = 10 \<and> isDigit (v ! 0) \<and> isDigit (v ! 1) \<and> isDigit (v ! 2) \<and> isDigit (v ! 3)
         \<and> v ! 4 = CHR ''-'' \<and> isDigit (v ! 5) \<and> isDigit (v ! 6)
         \<and> v ! 7 = CHR ''-'' \<and> isDigit (v ! 8) \<and> isDigit (v ! 9)
      then
        (let y = digit (v ! 0) * 1000 + digit (v ! 1) * 100 + digit (v ! 2) * 10 + digit (v ! 3);
             m = digit (v ! 5) * 10 + digit (v ! 6);
             d = digit (v ! 8) * 10 + digit (v ! 9)
         in if m < 1 \<or> 12 < m then None
            else if d < 1 \<or> daysIn m y < d then None
            else Some \<lparr> year = y, month = m, day = d \<rparr>)
      else None)"

text \<open>\<open>t.Before(u)\<close> on two such instants is the order of the calendar dates.\<close>

definition Before :: "Date \<Rightarrow> Date \<Rightarrow> bool" where
  "Before t u =
     (year t < year u \<or> (year t = year u \<and>
       (month t < month u \<or> (month t = month u \<and> day t < day u))))"

subsection \<open>Validation errors (resume\_models\_errors.go)\<close>

datatype domain_error = ErrInvalidField | ErrDateRange

record ValidationError =
  Field :: string
  Message :: string
  Err :: domain_error

definition NewValidationError :: "string \<Rightarrow> string \<Rightarrow> domain_error \<Rightarrow> ValidationError" where
  "NewValidationError field message err = \<lparr> Field = field, Message = message, Err = err \<rparr>"

subsection \<open>Education (education.go)\<close>

record Education =
  Institution :: string
  Location :: string
  Degree :: string
  Field :: string
  StartDate :: string
  EndDate :: string
  Description :: string

definition Education_Validate :: "Education \<Rightarrow> ValidationError option" where
  "Education_Validate e =
     (if TrimSpace (Institution e) = [] then
        Some (NewValidationError ''institution'' ''Institution is required'' ErrInvalidField)
      else if TrimSpace (Degree e) = [] then
        Some (NewValidationError ''degree'' ''Degree is required'' ErrInvalidField)
      else if TrimSpace (StartDate e) = [] then
        Some (NewValidationError ''start_date'' ''Start date is required'' ErrInvalidField)
      else if StartDate e \<noteq> [] then
        (case time_Parse (StartDate e) of
           None \<Rightarrow>
             Some (NewValidationError ''start_date''
                     ''Invalid start date format (must be YYYY-MM-DD)'' ErrInvalidField)
         | Some startDate \<Rightarrow>
             if EndDate e \<noteq> [] \<and> EndDate e \<noteq> ''Present'' then
               (case time_Parse (EndDate e) of
                  None \<Rightarrow>
                    Some (NewValidationError ''end_date''
                            (''Invalid end date format (must be YYYY-MM-DD or '' @ [CHR 0x27]
                               @ ''Present'' @ [CHR 0x27] @ '')'') ErrInvalidField)
                | Some endDate \<Rightarrow>
                    if Before endDate startDate then
                      Some (NewValidationError ''end_date''
                              ''End date must be after start date'' ErrDateRange)
                    else None)
             else None)
      else None)"

definition Education_BeforeSave :: "Education \<Rightarrow> Education" where
  "Education_BeforeSave e =
     e\<lparr> Institution := TrimSpace (Institution e),
        Location := TrimSpace (Location e),
        Degree := TrimSpace (Degree e),
        Education.Field := TrimSpace (Education.Field e),
        StartDate := TrimSpace (StartDate e),
        EndDate := TrimSpace (EndDate e),
        Description := TrimSpace (Description e) \<rparr>"

subsection \<open>Skill (skill.go)\<close>

definition SkillCategoryOther :: string where
  "SkillCategoryOther = ''other''"

record Skill =
  Name :: string
  Category :: string
  Proficiency :: int

definition Skill_BeforeSave :: "Skill \<Rightarrow> Skill" where
  "Skill_BeforeSave s =
     (let s = s\<lparr> Skill.Name := TrimSpace (Skill.Name s) \<rparr>;
          s = s\<lparr> Category := TrimSpace (Category s) \<rparr>
      in if Category s = [] then s\<lparr> Category := SkillCategoryOther \<rparr> else s)"

subsection \<open>Certification\<close>

record Certification =
  Name :: string
  Issuer :: string
  IssueDate :: string
  ExpiryDate :: string
  CredentialID :: string
  URL :: string

text \<open>
  \<open>url.ParseRequestURI\<close> belongs to the standard library; the validation only asks
  whether it returns an error, so it enters as a predicate \<open>ParseRequestURI\<close> that
  holds when the string parses.
\<close>

definition Certification_url_check :: "(string \<Rightarrow> bool) \<Rightarrow> Certification \<Rightarrow> ValidationError option" where
  "Certification_url_check ParseRequestURI c =
     (if URL c \<noteq> [] \<and> \<not> ParseRequestURI (URL c) then
        Some (NewValidationError ''url'' ''Invalid URL'' ErrInvalidField)
      else None)"

definition Certification_Validate :: "(string \<Rightarrow> bool) \<Rightarrow> Certification \<Rightarrow> ValidationError option" where
  "Certification_Validate ParseRequestURI c =
     (if TrimSpace (Certification.Name c) = [] then
        Some (NewValidationError ''name'' ''Certification name is required'' ErrInvalidField)
      else if TrimSpace (Issuer c) = [] then
        Some (NewValidationError ''issuer'' ''Issuer is required'' ErrInvalidField)
      else if TrimSpace (IssueDate c) = [] then
        Some (NewValidationError ''issue_date'' ''Issue date is required'' ErrInvalidField)
      else
        (case (if IssueDate c \<noteq> [] then
                 (case time_Parse (IssueDate c) of
                    None \<Rightarrow>
                      Some (NewValidationError ''issue_date''
                              ''Invalid issue date format (must be YYYY-MM-DD)'' ErrInvalidField)
                  | Some issueDate \<Rightarrow>
                      if ExpiryDate c \<noteq> [] \<and> ExpiryDate c \<noteq> ''No Expiration'' then
                        (case time_Parse (ExpiryDate c) of
                           None \<Rightarrow>
                             Some (NewValidationError ''expiry_date''
                                     (''Invalid expiry date format (must be YYYY-MM-DD or ''
                                        @ [CHR 0x27] @ ''No Expiration'' @ [CHR 0x27] @ '')'')
                                     ErrInvalidField)
                         | Some expiryDate \<Rightarrow>
                             if Before expiryDate issueDate then
                               Some (NewValidationError ''expiry_date''
                                       ''Expiry date must be after issue date'' ErrDateRange)
                             else None)
                      else None)
               else None) of
           Some err \<Rightarrow> Some err
         | None \<Rightarrow> Certification_url_check ParseRequestURI c))"

definition Certification_BeforeSave :: "Certification \<Rightarrow> Certification" where
  "Certification_BeforeSave c =
     c\<lparr> Certification.Name := TrimSpace (Certification.Name c),
        Issuer := TrimSpace (Issuer c),
        IssueDate := TrimSpace (IssueDate c),
        ExpiryDate := TrimSpace (ExpiryDate c),
        CredentialID := TrimSpace (CredentialID c),
        URL := TrimSpace (URL c) \<rparr>"

subsection \<open>Sanitising twice\<close>

lemma TrimSpace_other: "TrimSpace ''other'' = ''other''"
  by (rule TrimSpace_fixed) (simp_all add: leading_space_def trailing_space_def space_runes_def)

text \<open>
  Claim C10. \<open>BeforeSave\<close> is idempotent on Education, Skill and Certification values:
  a second application changes nothing, because trimming is idempotent and the default
  category \<open>other\<close> of a Skill is itself trimmed and not empty.
\<close>

theorem C10_BeforeSave_idempotent:
  "Education_BeforeSave (Education_BeforeSave e) = Education_BeforeSave e
   \<and> Skill_BeforeSave (Skill_BeforeSave s) = Skill_BeforeSave s
   \<and> Certification_BeforeSave (Certification_BeforeSave c) = Certification_BeforeSave c"
proof (intro conjI)
  show "Education_BeforeSave (Education_BeforeSave e) = Education_BeforeSave e"
    by (simp add: Education_BeforeSave_def TrimSpace_idem)
  show "Skill_BeforeSave (Skill_BeforeSave s) = Skill_BeforeSave s"
    by (simp add: Skill_BeforeSave_def Let_def TrimSpace_idem TrimSpace_other SkillCategoryOther_def)
  show "Certification_BeforeSave (Certification_BeforeSave c) = Certification_BeforeSave c"
    by (simp add: Certification_BeforeSave_def TrimSpace_idem)
qed


subsection \<open>Date ranges\<close>

lemma time_Parse_shape:
  assumes "time_Parse v = Some t"
  shows "v \<noteq> []" "isDigit (hd v)" "isDigit (last v)"
proof -
  from assms have len: "length v = 10" and d0: "isDigit (v ! 0)" and d9: "isDigit (v ! 9)"
    by (auto simp: time_Parse_def split: if_splits)
  from len show "v \<noteq> []" by auto
  from len d0 show "isDigit (hd v)" by (cases v) auto
  from len \<open>v \<noteq> []\<close> have "last v = v ! 9" using last_conv_nth[of v] by simp
  with d9 show "isDigit (last v)" by simp
qed

lemma time_Parse_TrimSpace: "time_Parse v = Some t \<Longrightarrow> TrimSpace v = v"
  by (intro TrimSpace_fixed leading_space_digit trailing_space_digit time_Parse_shape)

lemma time_Parse_nonblank: "time_Parse v = Some t \<Longrightarrow> TrimSpace v \<noteq> [] \<and> v \<noteq> []"
  using time_Parse_TrimSpace time_Parse_shape(1) by metis

lemma Education_Validate_dates:
  assumes "TrimSpace (Institution e) \<noteq> []" "TrimSpace (Degree e) \<noteq> []"
    and "time_Parse (StartDate e) = Some s"
  shows "EndDate e \<noteq> [] \<Longrightarrow> EndDate e \<noteq> ''Present'' \<Longrightarrow> time_Parse (EndDate e) = Some t \<Longrightarrow>
           Education_Validate e =
             (if Before t s
              then Some (NewValidationError ''end_date'' ''End date must be after start date'' ErrDateRange)
              else None)"
    and "EndDate e = ''Present'' \<Longrightarrow> Education_Validate e = None"
  using assms time_Parse_nonblank[OF assms(3)]
  by (simp_all add: Education_Validate_def)

lemma Certification_Validate_dates:
  assumes "TrimSpace (Certification.Name c) \<noteq> []" "TrimSpace (Issuer c) \<noteq> []"
    and "time_Parse (IssueDate c) = Some s"
  shows "ExpiryDate c \<noteq> [] \<Longrightarrow> ExpiryDate c \<noteq> ''No Expiration'' \<Longrightarrow>
         time_Parse (ExpiryDate c) = Some t \<Longrightarrow>
           Certification_Validate uri c =
             (if Before t s
              then Some (NewValidationError ''expiry_date'' ''Expiry date must be after issue date'' ErrDateRange)
              else Certification_url_check uri c)"
    and "ExpiryDate c = ''No Expiration'' \<Longrightarrow>
           Certification_Validate uri c = Certification_url_check uri c"
  using assms time_Parse_nonblank[OF assms(3)]
  by (simp_all add: Certification_Validate_def split: option.splits)

text \<open>Whether a validation result is the InvalidDateRange error.\<close>

definition is_DateRange :: "ValidationError option \<Rightarrow> bool" where
  "is_DateRange r = (case r of None \<Rightarrow> False | Some v \<Rightarrow> Err v = ErrDateRange)"

lemma url_check_not_DateRange: "\<not> is_DateRange (Certification_url_check uri c)"
  by (simp add: is_DateRange_def Certification_url_check_def NewValidationError_def)


lemma Before_irrefl: "\<not> Before t t"
  by (simp add: Before_def)

text \<open>
  Claim C6, as amended. For an Education entry whose institution and degree are not
  blank and whose start date and concrete end date both parse, \<open>Validate\<close> returns the
  InvalidDateRange error exactly when the end date precedes the start date, and returns
  no error otherwise (so equal dates pass); the end date \<open>Present\<close> is accepted without
  being parsed. Likewise for a Certification whose name and issuer are not blank, with
  the issue date, the expiry date and the sentinel \<open>No Expiration\<close>; there the
  validation goes on to the URL check when the dates are in order.
\<close>

theorem C6_date_range:
  "(TrimSpace (Institution e) \<noteq> [] \<and> TrimSpace (Degree e) \<noteq> []
      \<and> time_Parse (StartDate e) = Some s \<longrightarrow>
      (EndDate e \<noteq> [] \<and> EndDate e \<noteq> ''Present'' \<and> time_Parse (EndDate e) = Some t \<longrightarrow>
         (is_DateRange (Education_Validate e) \<longleftrightarrow> Before t s)
         \<and> (\<not> Before t s \<longrightarrow> Education_Validate e = None)
         \<and> (t = s \<longrightarrow> Education_Validate e = None))
      \<and> (EndDate e = ''Present'' \<longrightarrow> Education_Validate e = None))
   \<and> (TrimSpace (Certification.Name c) \<noteq> [] \<and> TrimSpace (Issuer c) \<noteq> []
      \<and> time_Parse (IssueDate c) = Some s' \<longrightarrow>
      (ExpiryDate c \<noteq> [] \<and> ExpiryDate c \<noteq> ''No Expiration''
         \<and> time_Parse (ExpiryDate c) = Some t' \<longrightarrow>
         (is_DateRange (Certification_Validate uri c) \<longleftrightarrow> Before t' s')
         \<and> (\<not> Before t' s' \<longrightarrow>
              Certification_Validate uri c = Certification_url_check uri c))
      \<and> (ExpiryDate c = ''No Expiration'' \<longrightarrow>
            Certification_Validate uri c = Certification_url_check uri c))"
proof (intro conjI impI)
  assume a: "TrimSpace (Institution e) \<noteq> [] \<and> TrimSpace (Degree e) \<noteq> []
      \<and> time_Parse (StartDate e) = Some s"
  {
    assume b: "EndDate e \<noteq> [] \<and> EndDate e \<noteq> ''Present'' \<and> time_Parse (EndDate e) = Some t"
    from a b have v: "Education_Validate e =
        (if Before t s
         then Some (NewValidationError ''end_date'' ''End date must be after start date'' ErrDateRange)
         else None)"
      by (simp add: Education_Validate_dates(1))
    show "is_DateRange (Education_Validate e) \<longleftrightarrow> Before t s"
      by (simp add: v is_DateRange_def NewValidationError_def)
    { assume "\<not> Before t s" then show "Education_Validate e = None" by (simp add: v) }
    { assume "t = s" then show "Education_Validate e = None" by (simp add: v Before_irrefl) }
  }
  { assume "EndDate e = ''Present''"
    with a show "Education_Validate e = None" by (simp add: Education_Validate_dates(2)) }
next
  assume a: "TrimSpace (Certification.Name c) \<noteq> [] \<and> TrimSpace (Issuer c) \<noteq> []
      \<and> time_Parse (IssueDate c) = Some s'"
  {
    assume b: "ExpiryDate c \<noteq> [] \<and> ExpiryDate c \<noteq> ''No Expiration''
         \<and> time_Parse (ExpiryDate c) = Some t'"
    from a b have v: "Certification_Validate uri c =
        (if Before t' s'
         then Some (NewValidationError ''expiry_date'' ''Expiry date must be after issue date'' ErrDateRange)
         else Certification_url_check uri c)"
      by (simp add: Certification_Validate_dates(1))
    show "is_DateRange (Certification_Validate uri c) \<longleftrightarrow> Before t' s'"
      using url_check_not_DateRange[of uri c]
      by (simp add: v is_DateRange_def NewValidationError_def)
    { assume "\<not> Before t' s'"
      then show "Certification_Validate uri c = Certification_url_check uri c" by (simp add: v) }
  }
  { assume "ExpiryDate c = ''No Expiration''"
    with a show "Certification_Validate uri c = Certification_url_check uri c"
      by (simp add: Certification_Validate_dates(2)) }
qed

text \<open>Sample entries: the dates of the specification's scenario.\<close>

definition education_2020 :: "string \<Rightarrow> string \<Rightarrow> Education" where
  "education_2020 institution endDate =
     \<lparr> Institution = institution, Location = ''Cambridge'', Degree = ''BSc'',
       Field = ''Computer Science'', StartDate = ''2020-01-01'', EndDate = endDate,
       Description = [] \<rparr>"

definition certification_2020 :: "string \<Rightarrow> string \<Rightarrow> Certification" where
  "certification_2020 name expiryDate =
     \<lparr> Name = name, Issuer = ''Linux Foundation'', IssueDate = ''2020-01-01'',
       ExpiryDate = expiryDate, CredentialID = [], URL = [] \<rparr>"

lemma TrimSpace_samples:
  "TrimSpace ''MIT'' = ''MIT''" "TrimSpace ''BSc'' = ''BSc''"
  "TrimSpace ''CKA'' = ''CKA''" "TrimSpace ''Linux Foundation'' = ''Linux Foundation''"
  "TrimSpace [] = []"
  by (rule TrimSpace_fixed; simp add: leading_space_def trailing_space_def space_runes_def)+

lemma time_Parse_samples:
  "time_Parse ''2020-01-01'' = Some \<lparr> year = 2020, month = 1, day = 1 \<rparr>"
  "time_Parse ''2019-01-01'' = Some \<lparr> year = 2019, month = 1, day = 1 \<rparr>"
  "time_Parse ''2021-06-30'' = Some \<lparr> year = 2021, month = 6, day = 30 \<rparr>"
  by (simp_all add: time_Parse_def isDigit_def digit_def daysIn_def isLeap_def)

theorem C6_date_range_witness:
  "is_DateRange (Education_Validate (education_2020 ''MIT'' ''2019-01-01''))
   \<and> Education_Validate (education_2020 ''MIT'' ''2021-06-30'') = None
   \<and> Education_Validate (education_2020 ''MIT'' ''2020-01-01'') = None
   \<and> Education_Validate (education_2020 ''MIT'' ''Present'') = None
   \<and> is_DateRange (Certification_Validate (\<lambda>u. True) (certification_2020 ''CKA'' ''2019-01-01''))
   \<and> Certification_Validate (\<lambda>u. True) (certification_2020 ''CKA'' ''2021-06-30'') = None
   \<and> Certification_Validate (\<lambda>u. True) (certification_2020 ''CKA'' ''No Expiration'') = None"
  using
    C6_date_range[of "education_2020 ''MIT'' ''2019-01-01''"
      "\<lparr> year = 2020, month = 1, day = 1 \<rparr>" "\<lparr> year = 2019, month = 1, day = 1 \<rparr>"
      "certification_2020 ''CKA'' ''2019-01-01''"
      "\<lparr> year = 2020, month = 1, day = 1 \<rparr>" "\<lparr> year = 2019, month = 1, day = 1 \<rparr>" "\<lambda>u. True"]
    C6_date_range[of "education_2020 ''MIT'' ''2021-06-30''"
      "\<lparr> year = 2020, month = 1, day = 1 \<rparr>" "\<lparr> year = 2021, month = 6, day = 30 \<rparr>"
      "certification_2020 ''CKA'' ''2021-06-30''"
      "\<lparr> year = 2020, month = 1, day = 1 \<rparr>" "\<lparr> year = 2021, month = 6, day = 30 \<rparr>" "\<lambda>u. True"]
    C6_date_range[of "education_2020 ''MIT'' ''2020-01-01''"
      "\<lparr> year = 2020, month = 1, day = 1 \<rparr>" "\<lparr> year = 2020, month = 1, day = 1 \<rparr>"
      "certification_2020 ''CKA'' ''No Expiration''"
      "\<lparr> year = 2020, month = 1, day = 1 \<rparr>" "\<lparr> year = 2020, month = 1, day = 1 \<rparr>" "\<lambda>u. True"]
    C6_date_range[of "education_2020 ''MIT'' ''Present''"
      "\<lparr> year = 2020, month = 1, day = 1 \<rparr>" "\<lparr> year = 2020, month = 1, day = 1 \<rparr>"
      "certification_2020 ''CKA'' ''No Expiration''"
      "\<lparr> year = 2020, month = 1, day = 1 \<rparr>" "\<lparr> year = 2020, month = 1, day = 1 \<rparr>" "\<lambda>u. True"]
  by (simp add: education_2020_def certification_2020_def TrimSpace_samples time_Parse_samples
        Before_def Certification_url_check_def)

text \<open>
  The claim as it was stated fails on an entry with a blank institution: both dates
  are well formed and the end date precedes the start date, yet the error returned is
  the InvalidField error of the institution, not InvalidDateRange. The same happens for
  a Certification with a blank name.
\<close>

theorem C6_date_range_counterexample:
  "time_Parse (StartDate (education_2020 [] ''2019-01-01'')) = Some \<lparr> year = 2020, month = 1, day = 1 \<rparr>
   \<and> time_Parse (EndDate (education_2020 [] ''2019-01-01'')) = Some \<lparr> year = 2019, month = 1, day = 1 \<rparr>
   \<and> Before \<lparr> year = 2019, month = 1, day = 1 \<rparr> \<lparr> year = 2020, month = 1, day = 1 \<rparr>
   \<and> Education_Validate (education_2020 [] ''2019-01-01'')
       = Some (NewValidationError ''institution'' ''Institution is required'' ErrInvalidField)
   \<and> \<not> is_DateRange (Education_Validate (education_2020 [] ''2019-01-01''))
   \<and> Certification_Validate (\<lambda>u. True) (certification_2020 [] ''2019-01-01'')
       = Some (NewValidationError ''name'' ''Certification name is required'' ErrInvalidField)
   \<and> \<not> is_DateRange (Certification_Validate (\<lambda>u. True) (certification_2020 [] ''2019-01-01''))"
  by (simp add: education_2020_def certification_2020_def TrimSpace_samples time_Parse_samples
        Before_def Education_Validate_def Certification_Validate_def is_DateRange_def
        NewValidationError_def)

section \<open>HTTP requests and cookies (net/http)\<close>

text \<open>
  What the middleware reads of a request: the method, the cookies, the header and the
  parsed form, each a list of name and value in the order received. \<open>r.Cookie(name)\<close>
  gives the first cookie of that name or fails; \<open>r.Header.Get\<close> and \<open>r.FormValue\<close>
  give the first value or the empty string.
\<close>

record Request =
  Method :: string
  Cookies :: "(string \<times> string) list"
  Header :: "(string \<times> string) list"
  Form :: "(string \<times> string) list"

definition Request_Cookie :: "'a Request_scheme \<Rightarrow> string \<Rightarrow> string option" where
  "Request_Cookie r name = map_of (Cookies r) name"

definition Header_Get :: "'a Request_scheme \<Rightarrow> string \<Rightarrow> string" where
  "Header_Get r key = (case map_of (Header r) key of None \<Rightarrow> [] | Some v \<Rightarrow> v)"

definition FormValue :: "'a Request_scheme \<Rightarrow> string \<Rightarrow> string" where
  "FormValue r key = (case map_of (Form r) key of None \<Rightarrow> [] | Some v \<Rightarrow> v)"

text \<open>A cookie set on the response (\<open>http.SetCookie\<close>).\<close>

record Cookie =
  Name :: string
  Value :: string
  Path :: string
  Domain :: string
  MaxAge :: int
  Secure :: bool
  HttpOnly :: bool
  SameSite :: int

definition SameSiteLaxMode :: int where "SameSiteLaxMode = 2"
definition SameSiteStrictMode :: int where "SameSiteStrictMode = 3"

text \<open>
  \<open>crypto/rand\<close>: the bytes the system will deliver are the pool \<open>entropy\<close>;
  reading \<open>n\<close> bytes takes the first \<open>n\<close> and fails when the pool is short.
\<close>

definition rand_Read :: "string \<Rightarrow> nat \<Rightarrow> string option" where
  "rand_Read entropy n = (if n \<le> length entropy then Some (take n entropy) else None)"

section \<open>CSRF protection\<close>

definition CSRFTokenLength :: nat where "CSRFTokenLength = 32"
definition CSRFCookieName :: string where "CSRFCookieName = ''csrf_token''"
definition CSRFHeaderName :: string where "CSRFHeaderName = ''X-CSRF-Token''"
definition CSRFFormField :: string where "CSRFFormField = ''csrf_token''"

datatype csrf_error = ErrInvalidCSRFToken | ErrMissingCSRFToken | ErrRandRead

record CSRFConfig =
  Key :: string
  CookieSecure :: bool
  CookiePath :: string
  CookieDomain :: string
  CookieMaxAge :: int
  CookieSameSite :: int

text \<open>\<open>NewCSRFProtection\<close> panics on an empty key (\<open>None\<close>) and fills in defaults.\<close>

definition NewCSRFProtection :: "CSRFConfig \<Rightarrow> CSRFConfig option" where
  "NewCSRFProtection config =
     (if length (Key config) = 0 then None
      else
        (let config = (if CookiePath config = [] then config\<lparr> CookiePath := ''/'' \<rparr> else config);
             config = (if CookieMaxAge config = 0 then config\<lparr> CookieMaxAge := 86400 \<rparr> else config);
             config = (if CookieSameSite config = 0
                       then config\<lparr> CookieSameSite := SameSiteStrictMode \<rparr> else config)
         in Some config))"

text \<open>
  HMAC-SHA256 belongs to \<open>crypto/hmac\<close> and \<open>crypto/sha256\<close>; it enters every
  function of this section as the parameter \<open>hmac\<close>, from key and message to digest.
  \<open>hmac.Equal\<close> is equality of the two byte strings, computed in constant time.
\<close>

type_synonym mac = "string \<Rightarrow> string \<Rightarrow> string"

definition hmac_Equal :: "string \<Rightarrow> string \<Rightarrow> bool" where
  "hmac_Equal a b = (a = b)"

definition generateToken :: "mac \<Rightarrow> CSRFConfig \<Rightarrow> string \<Rightarrow> int \<Rightarrow> csrf_error + string" where
  "generateToken hmac c entropy now =
     (case rand_Read entropy CSRFTokenLength of
        None \<Rightarrow> Inl ErrRandRead
      | Some randomBytes \<Rightarrow>
          (let randomString = StdEncoding_EncodeToString randomBytes;
               timestamp = now;
               payload = randomString @ ''|'' @ Itoa timestamp;
               signature = StdEncoding_EncodeToString (hmac (Key c) payload);
               token = payload @ ''|'' @ signature
           in Inr token))"

definition validateToken :: "mac \<Rightarrow> CSRFConfig \<Rightarrow> string \<Rightarrow> csrf_error option" where
  "validateToken hmac c token =
     (if token = [] then Some ErrMissingCSRFToken
      else
        (let parts = Split (CHR ''|'') token
         in if length parts \<noteq> 3 then Some ErrInvalidCSRFToken
            else
              (let randomStr = parts ! 0; timestampStr = parts ! 1; receivedSignature = parts ! 2;
                   payload = randomStr @ ''|'' @ timestampStr;
                   expectedSignature = StdEncoding_EncodeToString (hmac (Key c) payload)
               in if \<not> hmac_Equal receivedSignature expectedSignature
                  then Some ErrInvalidCSRFToken
                  else None)))"

text \<open>
  The outcome of the middleware: the next handler is served, possibly after a cookie
  was set on the response, or the request ends with \<open>http.Error\<close>.
\<close>

datatype response = ServeNext "Cookie option" | HttpError nat string

definition StatusForbidden :: nat where "StatusForbidden = 403"
definition StatusInternalServerError :: nat where "StatusInternalServerError = 500"

definition safe_method :: "string \<Rightarrow> bool" where
  "safe_method m = (m = ''GET'' \<or> m = ''HEAD'' \<or> m = ''OPTIONS'' \<or> m = ''TRACE'')"

definition cookie_missing :: "string option \<Rightarrow> bool" where
  "cookie_missing cookie = (case cookie of None \<Rightarrow> True | Some v \<Rightarrow> v = [])"

definition CSRF_Middleware :: "mac \<Rightarrow> CSRFConfig \<Rightarrow> string \<Rightarrow> int \<Rightarrow> Request \<Rightarrow> response" where
  "CSRF_Middleware hmac c entropy now r =
     (if safe_method (Method r) then
        (if cookie_missing (Request_Cookie r CSRFCookieName) then
           (case generateToken hmac c entropy now of
              Inl err \<Rightarrow> HttpError StatusInternalServerError ''Failed to generate CSRF token''
            | Inr token \<Rightarrow>
                ServeNext (Some \<lparr> Name = CSRFCookieName, Value = token, Path = CookiePath c,
                                   Domain = CookieDomain c, MaxAge = CookieMaxAge c,
                                   Secure = CookieSecure c, HttpOnly = True,
                                   SameSite = CookieSameSite c \<rparr>))
         else ServeNext None)
      else if cookie_missing (Request_Cookie r CSRFCookieName) then
        HttpError StatusForbidden ''CSRF token missing''
      else if Header_Get r CSRFHeaderName \<noteq> [] then
        (case validateToken hmac c (Header_Get r CSRFHeaderName) of
           Some err \<Rightarrow> HttpError StatusForbidden ''Invalid CSRF token''
         | None \<Rightarrow> ServeNext None)
      else if FormValue r CSRFFormField \<noteq> [] then
        (case validateToken hmac c (FormValue r CSRFFormField) of
           Some err \<Rightarrow> HttpError StatusForbidden ''Invalid CSRF token''
         | None \<Rightarrow> ServeNext None)
      else HttpError StatusForbidden ''CSRF token missing'')"

lemma validateToken_signed:
  assumes "CHR ''|'' \<notin> set randomStr" "CHR ''|'' \<notin> set timestampStr"
  shows "validateToken hmac c
           (randomStr @ ''|'' @ timestampStr @ ''|''
              @ StdEncoding_EncodeToString (hmac (Key c) (randomStr @ ''|'' @ timestampStr)))
         = None"
proof -
  let ?sig = "StdEncoding_EncodeToString (hmac (Key c) (randomStr @ ''|'' @ timestampStr))"
  have "Split (CHR ''|'') (randomStr @ ''|'' @ timestampStr @ ''|'' @ ?sig)
          = [randomStr, timestampStr, ?sig]"
    using assms Std_no_bar by (simp add: Split_append Split_none)
  then show ?thesis by (simp add: validateToken_def hmac_Equal_def)
qed

lemma generateToken_valid:
  assumes "generateToken hmac c entropy ts = Inr token"
  shows "validateToken hmac c token = None"
proof -
  from assms obtain randomBytes where
    tok: "token = StdEncoding_EncodeToString randomBytes @ ''|'' @ Itoa ts @ ''|''
            @ StdEncoding_EncodeToString
                (hmac (Key c) (StdEncoding_EncodeToString randomBytes @ ''|'' @ Itoa ts))"
    by (auto simp: generateToken_def Let_def split: option.splits)
  show ?thesis unfolding tok by (rule validateToken_signed) (simp_all add: Std_no_bar Itoa_no_bar)
qed


lemma validateToken_iff:
  "validateToken hmac c token = None \<longleftrightarrow>
     (\<exists>randomStr timestampStr.
        Split (CHR ''|'') token
          = [randomStr, timestampStr,
             StdEncoding_EncodeToString (hmac (Key c) (randomStr @ ''|'' @ timestampStr))])"
proof
  assume v: "validateToken hmac c token = None"
  then have len: "length (Split (CHR ''|'') token) = 3"
    by (auto simp: validateToken_def Let_def split: if_splits)
  then obtain p0 p1 p2 where parts: "Split (CHR ''|'') token = [p0, p1, p2]"
    by (auto simp: length_Suc_conv numeral_3_eq_3)
  with v have "p2 = StdEncoding_EncodeToString (hmac (Key c) (p0 @ ''|'' @ p1))"
    by (auto simp: validateToken_def Let_def hmac_Equal_def split: if_splits)
  with parts show "\<exists>randomStr timestampStr.
        Split (CHR ''|'') token
          = [randomStr, timestampStr,
             StdEncoding_EncodeToString (hmac (Key c) (randomStr @ ''|'' @ timestampStr))]"
    by blast
next
  assume "\<exists>randomStr timestampStr.
        Split (CHR ''|'') token
          = [randomStr, timestampStr,
             StdEncoding_EncodeToString (hmac (Key c) (randomStr @ ''|'' @ timestampStr))]"
  then obtain p0 p1 where parts: "Split (CHR ''|'') token
          = [p0, p1, StdEncoding_EncodeToString (hmac (Key c) (p0 @ ''|'' @ p1))]"
    by blast
  then have "token \<noteq> []" by auto
  with parts show "validateToken hmac c token = None"
    by (simp add: validateToken_def hmac_Equal_def)
qed

lemma CSRF_Middleware_unsafe:
  assumes "\<not> safe_method (Method r)" "\<not> cookie_missing (Request_Cookie r CSRFCookieName)"
    and "Header_Get r CSRFHeaderName \<noteq> []"
  shows "CSRF_Middleware hmac c entropy now r =
           (case validateToken hmac c (Header_Get r CSRFHeaderName) of
              Some err \<Rightarrow> HttpError StatusForbidden ''Invalid CSRF token''
            | None \<Rightarrow> ServeNext None)"
  using assms by (simp add: CSRF_Middleware_def)

text \<open>
  A stand-in for HMAC-SHA256 in closed examples. Every general statement of this
  section holds for any function in its place, HMAC-SHA256 included.
\<close>

definition sample_mac :: mac where
  "sample_mac key message = key @ message"

definition sample_csrf_config :: CSRFConfig where
  "sample_csrf_config =
     \<lparr> Key = ''test-csrf-key-must-be-32-bytes-long!'', CookieSecure = False, CookiePath = ''/'',
       CookieDomain = [], CookieMaxAge = 86400, CookieSameSite = SameSiteStrictMode \<rparr>"

definition sample_token :: "string \<Rightarrow> string \<Rightarrow> string" where
  "sample_token randomStr timestampStr =
     randomStr @ ''|'' @ timestampStr @ ''|''
       @ StdEncoding_EncodeToString
           (sample_mac (Key sample_csrf_config) (randomStr @ ''|'' @ timestampStr))"

definition post_request :: "string \<Rightarrow> string \<Rightarrow> Request" where
  "post_request cookie headerToken =
     \<lparr> Method = ''POST'', Cookies = [(''csrf_token'', cookie)],
       Header = [(''X-CSRF-Token'', headerToken)], Form = [] \<rparr>"


lemma sample_token_values:
  "sample_token ''abc'' ''1'' = ''abc|1|dGVzdC1jc3JmLWtleS1tdXN0LWJlLTMyLWJ5dGVzLWxvbmchYWJjfDE=''"
  "sample_token ''xyz'' ''1700000000''
     = ''xyz|1700000000|dGVzdC1jc3JmLWtleS1tdXN0LWJlLTMyLWJ5dGVzLWxvbmcheHl6fDE3MDAwMDAwMDA=''"
  by code_simp+

lemma sample_token_valid:
  "CHR ''|'' \<notin> set randomStr \<Longrightarrow> CHR ''|'' \<notin> set timestampStr \<Longrightarrow>
     validateToken sample_mac sample_csrf_config (sample_token randomStr timestampStr) = None"
  unfolding sample_token_def by (rule validateToken_signed)

text \<open>
  Claim C1, as amended. For a request with an unsafe method that carries a non-empty
  \<open>csrf_token\<close> cookie and a token in the \<open>X-CSRF-Token\<close> header, the middleware
  serves the next handler exactly when the header token passes \<open>validateToken\<close>, that
  is, when it has three segments and the third is the signature of the first two under
  the configured key; otherwise it answers 403. The value of the cookie plays no part:
  replacing it by any other non-empty value leaves the outcome unchanged.
\<close>

theorem C1_csrf_header_token:
  assumes "\<not> safe_method (Method r)"
    and "Request_Cookie r CSRFCookieName = Some cookieValue" and "cookieValue \<noteq> []"
    and "Header_Get r CSRFHeaderName = token" and "token \<noteq> []"
  shows "(CSRF_Middleware hmac c entropy now r = ServeNext None
            \<longleftrightarrow> validateToken hmac c token = None)
       \<and> (validateToken hmac c token \<noteq> None \<longrightarrow>
            CSRF_Middleware hmac c entropy now r = HttpError StatusForbidden ''Invalid CSRF token'')
       \<and> (validateToken hmac c token = None \<longleftrightarrow>
            (\<exists>randomStr timestampStr.
               Split (CHR ''|'') token
                 = [randomStr, timestampStr,
                    StdEncoding_EncodeToString (hmac (Key c) (randomStr @ ''|'' @ timestampStr))]))
       \<and> (\<forall>other. other \<noteq> [] \<longrightarrow>
            CSRF_Middleware hmac c entropy now (r\<lparr> Cookies := [(CSRFCookieName, other)] \<rparr>)
              = CSRF_Middleware hmac c entropy now r)"
proof (intro conjI allI impI)
  have present: "\<not> cookie_missing (Request_Cookie r CSRFCookieName)"
    using assms(2,3) by (simp add: cookie_missing_def)
  have m: "CSRF_Middleware hmac c entropy now r =
           (case validateToken hmac c token of
              Some err \<Rightarrow> HttpError StatusForbidden ''Invalid CSRF token''
            | None \<Rightarrow> ServeNext None)"
    using CSRF_Middleware_unsafe[OF assms(1) present] assms(4,5) by simp
  show "CSRF_Middleware hmac c entropy now r = ServeNext None
          \<longleftrightarrow> validateToken hmac c token = None"
    by (simp add: m split: option.splits)
  show "CSRF_Middleware hmac c entropy now r = HttpError StatusForbidden ''Invalid CSRF token''"
    if "validateToken hmac c token \<noteq> None"
    using that by (auto simp: m split: option.splits)
  show "validateToken hmac c token = None \<longleftrightarrow>
          (\<exists>randomStr timestampStr.
             Split (CHR ''|'') token
               = [randomStr, timestampStr,
                  StdEncoding_EncodeToString (hmac (Key c) (randomStr @ ''|'' @ timestampStr))])"
    by (rule validateToken_iff)
  show "CSRF_Middleware hmac c entropy now (r\<lparr> Cookies := [(CSRFCookieName, other)] \<rparr>)
          = CSRF_Middleware hmac c entropy now r"
    if "other \<noteq> []" for other
  proof -
    let ?r = "r\<lparr> Cookies := [(CSRFCookieName, other)] \<rparr>"
    have "\<not> safe_method (Method ?r)" using assms(1) by simp
    moreover have "\<not> cookie_missing (Request_Cookie ?r CSRFCookieName)"
      using that by (simp add: cookie_missing_def Request_Cookie_def)
    moreover have "Header_Get ?r CSRFHeaderName = token" using assms(4) by (simp add: Header_Get_def)
    ultimately have "CSRF_Middleware hmac c entropy now ?r =
           (case validateToken hmac c token of
              Some err \<Rightarrow> HttpError StatusForbidden ''Invalid CSRF token''
            | None \<Rightarrow> ServeNext None)"
      using CSRF_Middleware_unsafe[of ?r hmac c entropy now] assms(5) by simp
    with m show ?thesis by simp
  qed
qed

lemma sample_token_nonempty: "sample_token randomStr timestampStr \<noteq> []"
  by (simp add: sample_token_def)

lemma post_request_reads:
  "\<not> safe_method (Method (post_request cookie headerToken))"
  "Request_Cookie (post_request cookie headerToken) CSRFCookieName = Some cookie"
  "Header_Get (post_request cookie headerToken) CSRFHeaderName = headerToken"
  by (simp_all add: post_request_def safe_method_def Request_Cookie_def Header_Get_def
        CSRFCookieName_def CSRFHeaderName_def)

lemma validateToken_invalid_token:
  "validateToken hmac c ''invalid-token'' = Some ErrInvalidCSRFToken"
  by (simp add: validateToken_def)

theorem C1_csrf_header_token_witness:
  "CSRF_Middleware sample_mac sample_csrf_config [] 1800000000
     (post_request (sample_token ''abc'' ''1'') (sample_token ''abc'' ''1'')) = ServeNext None
   \<and> CSRF_Middleware sample_mac sample_csrf_config [] 1800000000
       (post_request (sample_token ''abc'' ''1'') ''invalid-token'')
       = HttpError StatusForbidden ''Invalid CSRF token''"
  using
    C1_csrf_header_token[of "post_request (sample_token ''abc'' ''1'') (sample_token ''abc'' ''1'')"
      "sample_token ''abc'' ''1''" "sample_token ''abc'' ''1''"
      sample_mac sample_csrf_config "[]" 1800000000]
    C1_csrf_header_token[of "post_request (sample_token ''abc'' ''1'') ''invalid-token''"
      "sample_token ''abc'' ''1''" "''invalid-token''"
      sample_mac sample_csrf_config "[]" 1800000000]
  by (simp add: post_request_reads sample_token_valid validateToken_invalid_token
        sample_token_nonempty)

text \<open>
  The claim as it was stated fails: a POST whose cookie holds one signed token and whose
  header holds a different signed token (other random part, other timestamp, other
  signature) is served, not rejected.
\<close>

theorem C1_csrf_counterexample:
  "Request_Cookie
     (post_request
        ''xyz|1700000000|dGVzdC1jc3JmLWtleS1tdXN0LWJlLTMyLWJ5dGVzLWxvbmcheHl6fDE3MDAwMDAwMDA=''
        ''abc|1|dGVzdC1jc3JmLWtleS1tdXN0LWJlLTMyLWJ5dGVzLWxvbmchYWJjfDE='') CSRFCookieName
     = Some ''xyz|1700000000|dGVzdC1jc3JmLWtleS1tdXN0LWJlLTMyLWJ5dGVzLWxvbmcheHl6fDE3MDAwMDAwMDA=''
   \<and> Header_Get
     (post_request
        ''xyz|1700000000|dGVzdC1jc3JmLWtleS1tdXN0LWJlLTMyLWJ5dGVzLWxvbmcheHl6fDE3MDAwMDAwMDA=''
        ''abc|1|dGVzdC1jc3JmLWtleS1tdXN0LWJlLTMyLWJ5dGVzLWxvbmchYWJjfDE='') CSRFHeaderName
     = ''abc|1|dGVzdC1jc3JmLWtleS1tdXN0LWJlLTMyLWJ5dGVzLWxvbmchYWJjfDE=''
   \<and> ''abc|1|dGVzdC1jc3JmLWtleS1tdXN0LWJlLTMyLWJ5dGVzLWxvbmchYWJjfDE=''
       \<noteq> ''xyz|1700000000|dGVzdC1jc3JmLWtleS1tdXN0LWJlLTMyLWJ5dGVzLWxvbmcheHl6fDE3MDAwMDAwMDA=''
   \<and> CSRF_Middleware sample_mac sample_csrf_config [] 1800000000
     (post_request
        ''xyz|1700000000|dGVzdC1jc3JmLWtleS1tdXN0LWJlLTMyLWJ5dGVzLWxvbmcheHl6fDE3MDAwMDAwMDA=''
        ''abc|1|dGVzdC1jc3JmLWtleS1tdXN0LWJlLTMyLWJ5dGVzLWxvbmchYWJjfDE='')
     = ServeNext None"
proof -
  have "CSRF_Middleware sample_mac sample_csrf_config [] 1800000000
          (post_request (sample_token ''xyz'' ''1700000000'') (sample_token ''abc'' ''1''))
        = ServeNext None"
    using CSRF_Middleware_unsafe[of "post_request (sample_token ''xyz'' ''1700000000'') (sample_token ''abc'' ''1'')"
        sample_mac sample_csrf_config "[]" 1800000000]
    by (simp add: post_request_reads sample_token_valid sample_token_nonempty cookie_missing_def)
  then show ?thesis
    unfolding sample_token_values by (simp add: post_request_reads)
qed



subsection \<open>The timestamp of a token\<close>

lemma generateToken_nonempty: "generateToken hmac c entropy ts = Inr token \<Longrightarrow> token \<noteq> []"
  by (auto simp: generateToken_def Let_def split: option.splits)

text \<open>
  Claim C9. A token whose third segment is the HMAC-SHA256 signature of its first two
  segments under the configured key is accepted by \<open>validateToken\<close> whatever the
  timestamp segment says: the function has no clock, and neither has the unsafe-method
  branch of the middleware. So a token issued at any time \<open>issued\<close> is accepted at
  every time \<open>now\<close>.
\<close>

theorem C9_timestamp_never_checked:
  "(CHR ''|'' \<notin> set randomStr \<and> CHR ''|'' \<notin> set timestampStr \<longrightarrow>
      validateToken hmac c
        (randomStr @ ''|'' @ timestampStr @ ''|''
           @ StdEncoding_EncodeToString (hmac (Key c) (randomStr @ ''|'' @ timestampStr)))
      = None)
   \<and> (generateToken hmac c entropy issued = Inr token \<longrightarrow>
        validateToken hmac c token = None
        \<and> (\<not> safe_method (Method r) \<and> \<not> cookie_missing (Request_Cookie r CSRFCookieName)
             \<and> Header_Get r CSRFHeaderName = token \<longrightarrow>
             CSRF_Middleware hmac c entropy' now r = ServeNext None))"
proof (intro conjI impI)
  assume "CHR ''|'' \<notin> set randomStr \<and> CHR ''|'' \<notin> set timestampStr"
  then have "CHR ''|'' \<notin> set randomStr" "CHR ''|'' \<notin> set timestampStr" by blast+
  then show "validateToken hmac c
        (randomStr @ ''|'' @ timestampStr @ ''|''
           @ StdEncoding_EncodeToString (hmac (Key c) (randomStr @ ''|'' @ timestampStr)))
      = None"
    by (rule validateToken_signed)
next
  assume g: "generateToken hmac c entropy issued = Inr token"
  then show v: "validateToken hmac c token = None" by (rule generateToken_valid)
  assume r: "\<not> safe_method (Method r) \<and> \<not> cookie_missing (Request_Cookie r CSRFCookieName)
             \<and> Header_Get r CSRFHeaderName = token"
  with generateToken_nonempty[OF g] have "Header_Get r CSRFHeaderName \<noteq> []" by simp
  with r v show "CSRF_Middleware hmac c entropy' now r = ServeNext None"
    by (simp add: CSRF_Middleware_unsafe)
qed

lemma sample_generateToken:
  "generateToken sample_mac sample_csrf_config (replicate 32 (CHR 0x01)) 0
     = Inr ''AQEBAQEBAQEBAQEBAQEBAQEBAQEBAQEBAQEBAQEBAQE=|0|dGVzdC1jc3JmLWtleS1tdXN0LWJlLTMyLWJ5dGVzLWxvbmchQVFFQkFRRUJBUUVCQVFFQkFRRUJBUUVCQVFFQkFRRUJBUUVCQVFFQkFRRT18MA==''"
  by code_simp

theorem C9_timestamp_never_checked_witness:
  "validateToken sample_mac sample_csrf_config
     (''abc|1|'' @ StdEncoding_EncodeToString (sample_mac (Key sample_csrf_config) ''abc|1'')) = None
   \<and> CSRF_Middleware sample_mac sample_csrf_config [] 4102444800
       (post_request ''cookie''
          ''AQEBAQEBAQEBAQEBAQEBAQEBAQEBAQEBAQEBAQEBAQE=|0|dGVzdC1jc3JmLWtleS1tdXN0LWJlLTMyLWJ5dGVzLWxvbmchQVFFQkFRRUJBUUVCQVFFQkFRRUJBUUVCQVFFQkFRRUJBUUVCQVFFQkFRRT18MA=='')
       = ServeNext None"
  using C9_timestamp_never_checked[of "''abc''" "''1''" sample_mac sample_csrf_config
      "replicate 32 (CHR 0x01)" 0
      "''AQEBAQEBAQEBAQEBAQEBAQEBAQEBAQEBAQEBAQEBAQE=|0|dGVzdC1jc3JmLWtleS1tdXN0LWJlLTMyLWJ5dGVzLWxvbmchQVFFQkFRRUJBUUVCQVFFQkFRRUJBUUVCQVFFQkFRRUJBUUVCQVFFQkFRRT18MA==''"
      "post_request ''cookie''
          ''AQEBAQEBAQEBAQEBAQEBAQEBAQEBAQEBAQEBAQEBAQE=|0|dGVzdC1jc3JmLWtleS1tdXN0LWJlLTMyLWJ5dGVzLWxvbmchQVFFQkFRRUJBUUVCQVFFQkFRRUJBUUVCQVFFQkFRRUJBUUVCQVFFQkFRRT18MA==''"
      "[]" 4102444800]
  by (simp add: sample_generateToken post_request_reads cookie_missing_def)

section \<open>Password hashing\<close>

text \<open>
  Argon2id belongs to \<open>golang.org/x/crypto/argon2\<close>. The key derivation enters as the
  parameter \<open>idkey\<close> (password, salt, time, memory, threads, key length); the
  library panics when the time or the thread count is zero, which \<open>argon2_IDKey\<close>
  records. \<open>Panic\<close> is a run-time panic, the other values of \<open>password_error\<close> are
  errors returned.
\<close>

datatype password_error =
  ErrInvalidHash | ErrIncompatibleVersion | ErrSscanf | ErrCorruptInput | ErrSaltRead | Panic

record Argon2Params =
  Memory :: "32 word"
  Iterations :: "32 word"
  Parallelism :: "8 word"
  SaltLength :: "32 word"
  KeyLength :: "32 word"

definition DefaultArgon2Params :: Argon2Params where
  "DefaultArgon2Params =
     \<lparr> Memory = 64 * 1024, Iterations = 3, Parallelism = 4, SaltLength = 16, KeyLength = 32 \<rparr>"

definition argon2_Version :: int where
  "argon2_Version = 19"

type_synonym kdf = "string \<Rightarrow> string \<Rightarrow> 32 word \<Rightarrow> 32 word \<Rightarrow> 8 word \<Rightarrow> 32 word \<Rightarrow> string"

definition argon2_IDKey ::
  "kdf \<Rightarrow> string \<Rightarrow> string \<Rightarrow> 32 word \<Rightarrow> 32 word \<Rightarrow> 8 word \<Rightarrow> 32 word \<Rightarrow> password_error + string" where
  "argon2_IDKey idkey password salt time memory threads keyLen =
     (if time < 1 \<or> threads < 1 then Inl Panic
      else Inr (idkey password salt time memory threads keyLen))"

text \<open>\<open>subtle.ConstantTimeCompare\<close>: 1 when the two slices are equal, 0 otherwise.\<close>

definition ConstantTimeCompare :: "string \<Rightarrow> string \<Rightarrow> int" where
  "ConstantTimeCompare x y = (if x = y then 1 else 0)"

text \<open>A \<open>nil\<close> parameter pointer stands for the default parameters.\<close>

definition params_or_default :: "Argon2Params option \<Rightarrow> Argon2Params" where
  "params_or_default params = (case params of None \<Rightarrow> DefaultArgon2Params | Some p \<Rightarrow> p)"

definition HashPassword :: "kdf \<Rightarrow> string \<Rightarrow> Argon2Params option \<Rightarrow> string \<Rightarrow> password_error + string" where
  "HashPassword idkey password params entropy =
     (let params = params_or_default params
      in case rand_Read entropy (unat (SaltLength params)) of
           None \<Rightarrow> Inl ErrSaltRead
         | Some salt \<Rightarrow>
             (case argon2_IDKey idkey password salt (Iterations params) (Memory params)
                     (Parallelism params) (KeyLength params) of
                Inl e \<Rightarrow> Inl e
              | Inr hash \<Rightarrow>
                  (let b64Salt = RawStdEncoding_EncodeToString salt;
                       b64Hash = RawStdEncoding_EncodeToString hash;
                       encodedHash =
                         ''$argon2id$v='' @ Itoa argon2_Version
                           @ ''$m='' @ Itoa (uint (Memory params))
                           @ '',t='' @ Itoa (uint (Iterations params))
                           @ '',p='' @ Itoa (uint (Parallelism params))
                           @ ''$'' @ b64Salt @ ''$'' @ b64Hash
                   in Inr encodedHash)))"

text \<open>An index expression \<open>parts[i]\<close> panics when the index is out of range.\<close>

definition index :: "string list \<Rightarrow> nat \<Rightarrow> password_error + string" where
  "index parts i = (if i < length parts then Inr (parts ! i) else Inl Panic)"

definition bind :: "password_error + 'a \<Rightarrow> ('a \<Rightarrow> password_error + 'b) \<Rightarrow> password_error + 'b" where
  "bind m f = (case m of Inl e \<Rightarrow> Inl e | Inr x \<Rightarrow> f x)"

definition decodeHash :: "string \<Rightarrow> password_error + (Argon2Params \<times> string \<times> string)" where
  "decodeHash encodedHash =
     (let parts = Split (CHR ''$'') encodedHash
      in if length parts \<noteq> 6 then Inl ErrInvalidHash
         else
           bind (index parts 1) (\<lambda>algorithm.
             if algorithm \<noteq> ''argon2id'' then Inl ErrInvalidHash
             else
               bind (index parts 2) (\<lambda>versionPart.
                 case Sscanf versionPart ''v=%d'' [IntPtr] of
                   Some [version] \<Rightarrow>
                     if version \<noteq> argon2_Version then Inl ErrIncompatibleVersion
                     else
                       bind (index parts 3) (\<lambda>paramPart.
                         case Sscanf paramPart ''m=%d,t=%d,p=%d'' [Uint32Ptr, Uint32Ptr, Uint8Ptr] of
                           Some [memory, iterations, parallelism] \<Rightarrow>
                             bind (index parts 4) (\<lambda>saltPart.
                               case RawStdEncoding_DecodeString saltPart of
                                 None \<Rightarrow> Inl ErrCorruptInput
                               | Some salt \<Rightarrow>
                                   bind (index parts 5) (\<lambda>hashPart.
                                     case RawStdEncoding_DecodeString hashPart of
                                       None \<Rightarrow> Inl ErrCorruptInput
                                     | Some hash \<Rightarrow>
                                         Inr (\<lparr> Memory = word_of_int memory,
                                                Iterations = word_of_int iterations,
                                                Parallelism = word_of_int parallelism,
                                                SaltLength = of_nat (length salt),
                                                KeyLength = of_nat (length hash) \<rparr>,
                                              salt, hash)))
                         | _ \<Rightarrow> Inl ErrSscanf)
                 | _ \<Rightarrow> Inl ErrSscanf)))"

definition VerifyPassword :: "kdf \<Rightarrow> string \<Rightarrow> string \<Rightarrow> password_error + bool" where
  "VerifyPassword idkey password encodedHash =
     (case decodeHash encodedHash of
        Inl err \<Rightarrow> Inl err
      | Inr (params, salt, hash) \<Rightarrow>
          (case argon2_IDKey idkey password salt (Iterations params) (Memory params)
                  (Parallelism params) (KeyLength params) of
             Inl e \<Rightarrow> Inl e
           | Inr computedHash \<Rightarrow> Inr (ConstantTimeCompare hash computedHash = 1)))"

definition sample_kdf :: kdf where
  "sample_kdf password salt time memory threads keyLen =
     take (unat keyLen) (concat (replicate (unat keyLen) (salt @ password @ ''#'')))"


subsection \<open>Decoding what HashPassword encodes\<close>

lemma Split6:
  assumes "sep \<notin> set a" "sep \<notin> set b" "sep \<notin> set c" "sep \<notin> set d" "sep \<notin> set e"
    "sep \<notin> set f"
  shows "Split sep (a @ sep # b @ sep # c @ sep # d @ sep # e @ sep # f) = [a, b, c, d, e, f]"
  using assms by (simp add: Split_append Split_none)

lemma Itoa_uint: "Itoa (uint w) = digits10 (unat w)"
  by (simp add: Itoa_def)

lemma digits10_no_dollar: "CHR ''$'' \<notin> set (digits10 n)"
  using digits10_digits[of n] isDigit_not_bar by auto

lemma Raw_no_dollar: "CHR ''$'' \<notin> set (RawStdEncoding_EncodeToString src)"
  using Raw_chars[of src] b64_alphabet_excludes(4) by auto

definition encode_hash :: "32 word \<Rightarrow> 32 word \<Rightarrow> 8 word \<Rightarrow> string \<Rightarrow> string \<Rightarrow> string" where
  "encode_hash m t p salt hash =
     ''$argon2id$v='' @ Itoa argon2_Version
       @ ''$m='' @ Itoa (uint m) @ '',t='' @ Itoa (uint t) @ '',p='' @ Itoa (uint p)
       @ ''$'' @ RawStdEncoding_EncodeToString salt @ ''$'' @ RawStdEncoding_EncodeToString hash"

lemma Split_encode_hash:
  "Split (CHR ''$'') (encode_hash m t p salt hash)
     = [[], ''argon2id'', ''v='' @ Itoa argon2_Version,
        ''m='' @ digits10 (unat m) @ '',t='' @ digits10 (unat t) @ '',p='' @ digits10 (unat p),
        RawStdEncoding_EncodeToString salt, RawStdEncoding_EncodeToString hash]"
proof -
  have a: "CHR ''$'' \<notin> set []" by simp
  have b: "CHR ''$'' \<notin> set ''argon2id''" by simp
  have v: "CHR ''$'' \<notin> set (''v='' @ Itoa argon2_Version)"
    using digits10_no_dollar by (simp add: Itoa_def argon2_Version_def)
  have q: "CHR ''$'' \<notin> set (''m='' @ digits10 (unat m) @ '',t='' @ digits10 (unat t)
              @ '',p='' @ digits10 (unat p))"
    using digits10_no_dollar by simp
  have e1: "encode_hash m t p salt hash
          = [] @ CHR ''$'' # ''argon2id'' @ CHR ''$'' # (''v='' @ Itoa argon2_Version) @ CHR ''$'' #
            (''m='' @ digits10 (unat m) @ '',t='' @ digits10 (unat t) @ '',p='' @ digits10 (unat p))
            @ CHR ''$'' # RawStdEncoding_EncodeToString salt
            @ CHR ''$'' # RawStdEncoding_EncodeToString hash"
    by (simp add: encode_hash_def Itoa_uint)
  show ?thesis
    unfolding e1 by (rule Split6[OF a b v q Raw_no_dollar Raw_no_dollar])
qed

lemma decodeHash_parts:
  assumes "Split (CHR ''$'') s = [p0, p1, p2, p3, p4, p5]"
    and "p1 = ''argon2id''"
    and "Sscanf p2 ''v=%d'' [IntPtr] = Some [argon2_Version]"
    and "Sscanf p3 ''m=%d,t=%d,p=%d'' [Uint32Ptr, Uint32Ptr, Uint8Ptr] = Some [m, t, p]"
    and "RawStdEncoding_DecodeString p4 = Some salt"
    and "RawStdEncoding_DecodeString p5 = Some hash"
  shows "decodeHash s
     = Inr (\<lparr> Memory = word_of_int m, Iterations = word_of_int t, Parallelism = word_of_int p,
              SaltLength = of_nat (length salt), KeyLength = of_nat (length hash) \<rparr>, salt, hash)"
  using assms by (simp add: decodeHash_def index_def bind_def)

lemma decodeHash_encode_hash:
  "decodeHash (encode_hash m t p salt hash)
     = Inr (\<lparr> Memory = m, Iterations = t, Parallelism = p,
              SaltLength = of_nat (length salt), KeyLength = of_nat (length hash) \<rparr>, salt, hash)"
proof -
  have ver: "Sscanf (''v='' @ Itoa argon2_Version) ''v=%d'' [IntPtr] = Some [argon2_Version]"
    by (rule Sscanf_version) (simp_all add: argon2_Version_def)
  have par: "Sscanf (''m='' @ digits10 (unat m) @ '',t='' @ digits10 (unat t) @ '',p='' @ digits10 (unat p))
           ''m=%d,t=%d,p=%d'' [Uint32Ptr, Uint32Ptr, Uint8Ptr]
         = Some [int (unat m), int (unat t), int (unat p)]"
    using unsigned_less[of m, where 'a = nat] unsigned_less[of t, where 'a = nat]
      unsigned_less[of p, where 'a = nat]
    by (intro Sscanf_params) simp_all
  have "decodeHash (encode_hash m t p salt hash)
     = Inr (\<lparr> Memory = word_of_int (int (unat m)), Iterations = word_of_int (int (unat t)),
              Parallelism = word_of_int (int (unat p)),
              SaltLength = of_nat (length salt), KeyLength = of_nat (length hash) \<rparr>, salt, hash)"
    by (rule decodeHash_parts[OF Split_encode_hash refl ver par Raw_decode_encode Raw_decode_encode])
  then show ?thesis by simp
qed

lemma HashPassword_Inr:
  assumes "HashPassword idkey password params entropy = Inr encodedHash"
  defines "ps \<equiv> params_or_default params"
  defines "salt \<equiv> take (unat (SaltLength ps)) entropy"
  defines "hash \<equiv> idkey password salt (Iterations ps) (Memory ps) (Parallelism ps) (KeyLength ps)"
  shows "encodedHash = encode_hash (Memory ps) (Iterations ps) (Parallelism ps) salt hash"
    and "unat (SaltLength ps) \<le> length entropy"
    and "\<not> (Iterations ps < 1 \<or> Parallelism ps < 1)"
proof -
  have h: "HashPassword idkey password params entropy =
     (case rand_Read entropy (unat (SaltLength ps)) of
           None \<Rightarrow> Inl ErrSaltRead
         | Some salt \<Rightarrow>
             (case argon2_IDKey idkey password salt (Iterations ps) (Memory ps)
                     (Parallelism ps) (KeyLength ps) of
                Inl e \<Rightarrow> Inl e
              | Inr hash \<Rightarrow>
                  Inr (encode_hash (Memory ps) (Iterations ps) (Parallelism ps) salt hash)))"
    unfolding HashPassword_def ps_def encode_hash_def Let_def ..
  from assms(1) h obtain s where s: "rand_Read entropy (unat (SaltLength ps)) = Some s"
    by (cases "rand_Read entropy (unat (SaltLength ps))") simp_all
  then show le: "unat (SaltLength ps) \<le> length entropy"
    by (simp add: rand_Read_def split: if_splits)
  with s have s_eq: "s = salt" by (simp add: rand_Read_def salt_def)
  from assms(1) h s obtain k where
    k: "argon2_IDKey idkey password s (Iterations ps) (Memory ps) (Parallelism ps) (KeyLength ps) = Inr k"
    by (cases "argon2_IDKey idkey password s (Iterations ps) (Memory ps) (Parallelism ps) (KeyLength ps)")
      simp_all
  then show np: "\<not> (Iterations ps < 1 \<or> Parallelism ps < 1)"
    by (simp add: argon2_IDKey_def split: if_splits)
  with k have "k = hash" by (simp add: argon2_IDKey_def hash_def s_eq)
  with assms(1) h s k s_eq show "encodedHash = encode_hash (Memory ps) (Iterations ps) (Parallelism ps) salt hash"
    by simp
qed


subsection \<open>Errors of decodeHash\<close>

lemma decodeHash_six:
  assumes "Split (CHR ''$'') s = [p0, p1, p2, p3, p4, p5]"
  shows "decodeHash s =
     (if p1 \<noteq> ''argon2id'' then Inl ErrInvalidHash
      else case Sscanf p2 ''v=%d'' [IntPtr] of
             Some [version] \<Rightarrow>
               if version \<noteq> argon2_Version then Inl ErrIncompatibleVersion
               else (case Sscanf p3 ''m=%d,t=%d,p=%d'' [Uint32Ptr, Uint32Ptr, Uint8Ptr] of
                       Some [memory, iterations, parallelism] \<Rightarrow>
                         (case RawStdEncoding_DecodeString p4 of
                            None \<Rightarrow> Inl ErrCorruptInput
                          | Some salt \<Rightarrow>
                              (case RawStdEncoding_DecodeString p5 of
                                 None \<Rightarrow> Inl ErrCorruptInput
                               | Some hash \<Rightarrow>
                                   Inr (\<lparr> Memory = word_of_int memory,
                                          Iterations = word_of_int iterations,
                                          Parallelism = word_of_int parallelism,
                                          SaltLength = of_nat (length salt),
                                          KeyLength = of_nat (length hash) \<rparr>, salt, hash)))
                     | _ \<Rightarrow> Inl ErrSscanf)
           | _ \<Rightarrow> Inl ErrSscanf)"
  using assms
  by (simp add: decodeHash_def index_def bind_def Let_def split: option.splits list.splits)

lemma six_parts: "length xs = 6 \<Longrightarrow> \<exists>p0 p1 p2 p3 p4 p5. xs = [p0, p1, p2, p3, p4, p5]"
  by (auto simp: length_Suc_conv eval_nat_numeral)

lemma decodeHash_no_panic: "decodeHash s \<noteq> Inl Panic"
proof (cases "length (Split (CHR ''$'') s) = 6")
  case False
  then show ?thesis by (simp add: decodeHash_def)
next
  case True
  then obtain p0 p1 p2 p3 p4 p5 where "Split (CHR ''$'') s = [p0, p1, p2, p3, p4, p5]"
    using six_parts by blast
  then show ?thesis
    by (simp add: decodeHash_six split: option.splits list.splits)
qed


text \<open>
  Claim C7. \<open>decodeHash\<close> never panics (its index expressions are guarded by the
  segment count); a string that does not split into six segments at \<open>$\<close>, or whose
  second segment is not \<open>argon2id\<close>, yields InvalidHash; a version marker \<open>v=n\<close> with
  \<open>n\<close> (a Go \<open>int\<close>) other than the library's version 19 yields IncompatibleVersion; and
  decoding what \<open>HashPassword\<close> returned recovers the parameters it was given, the salt
  length and the key length included (the latter because Argon2 returns a key of the
  length asked for).
\<close>

theorem C7_decodeHash:
  "decodeHash s \<noteq> Inl Panic
   \<and> (length (Split (CHR ''$'') s) \<noteq> 6 \<longrightarrow> decodeHash s = Inl ErrInvalidHash)
   \<and> (length (Split (CHR ''$'') s) = 6 \<and> Split (CHR ''$'') s ! 1 \<noteq> ''argon2id'' \<longrightarrow>
        decodeHash s = Inl ErrInvalidHash)
   \<and> (length (Split (CHR ''$'') s) = 6 \<and> Split (CHR ''$'') s ! 1 = ''argon2id''
        \<and> Split (CHR ''$'') s ! 2 = ''v='' @ Itoa v \<and> - (2 ^ 63) \<le> v \<and> v < 2 ^ 63
        \<and> v \<noteq> argon2_Version \<longrightarrow>
        decodeHash s = Inl ErrIncompatibleVersion)
   \<and> (HashPassword idkey password params entropy = Inr encodedHash
        \<and> length (idkey password (take (unat (SaltLength (params_or_default params))) entropy)
                    (Iterations (params_or_default params)) (Memory (params_or_default params))
                    (Parallelism (params_or_default params)) (KeyLength (params_or_default params)))
            = unat (KeyLength (params_or_default params)) \<longrightarrow>
        (\<exists>salt hash. decodeHash encodedHash = Inr (params_or_default params, salt, hash)))"
proof (intro conjI impI)
  show "decodeHash s \<noteq> Inl Panic" by (rule decodeHash_no_panic)
  show "decodeHash s = Inl ErrInvalidHash" if "length (Split (CHR ''$'') s) \<noteq> 6"
    using that by (simp add: decodeHash_def)
  show "decodeHash s = Inl ErrInvalidHash"
    if "length (Split (CHR ''$'') s) = 6 \<and> Split (CHR ''$'') s ! 1 \<noteq> ''argon2id''"
  proof -
    from that obtain p0 p1 p2 p3 p4 p5 where p: "Split (CHR ''$'') s = [p0, p1, p2, p3, p4, p5]"
      using six_parts by blast
    with that have "p1 \<noteq> ''argon2id''" by simp
    then show ?thesis by (simp add: decodeHash_six[OF p])
  qed
  show "decodeHash s = Inl ErrIncompatibleVersion"
    if a: "length (Split (CHR ''$'') s) = 6 \<and> Split (CHR ''$'') s ! 1 = ''argon2id''
        \<and> Split (CHR ''$'') s ! 2 = ''v='' @ Itoa v \<and> - (2 ^ 63) \<le> v \<and> v < 2 ^ 63
        \<and> v \<noteq> argon2_Version"
  proof -
    from a obtain p0 p1 p2 p3 p4 p5 where p: "Split (CHR ''$'') s = [p0, p1, p2, p3, p4, p5]"
      using six_parts by blast
    with a have p1: "p1 = ''argon2id''" and p2: "p2 = ''v='' @ Itoa v" by simp_all
    from a have "Sscanf (''v='' @ Itoa v) ''v=%d'' [IntPtr] = Some [v]"
      by (intro Sscanf_version) simp_all
    with a p1 p2 show ?thesis by (simp add: decodeHash_six[OF p])
  qed
  show "\<exists>salt hash. decodeHash encodedHash = Inr (params_or_default params, salt, hash)"
    if a: "HashPassword idkey password params entropy = Inr encodedHash
        \<and> length (idkey password (take (unat (SaltLength (params_or_default params))) entropy)
                    (Iterations (params_or_default params)) (Memory (params_or_default params))
                    (Parallelism (params_or_default params)) (KeyLength (params_or_default params)))
            = unat (KeyLength (params_or_default params))"
  proof -
    let ?ps = "params_or_default params"
    let ?salt = "take (unat (SaltLength ?ps)) entropy"
    let ?hash = "idkey password ?salt (Iterations ?ps) (Memory ?ps) (Parallelism ?ps) (KeyLength ?ps)"
    from a have h: "HashPassword idkey password params entropy = Inr encodedHash" by blast
    have e: "encodedHash = encode_hash (Memory ?ps) (Iterations ?ps) (Parallelism ?ps) ?salt ?hash"
      using HashPassword_Inr(1)[OF h] .
    have le: "unat (SaltLength ?ps) \<le> length entropy" using HashPassword_Inr(2)[OF h] .
    then have sl: "(of_nat (length ?salt) :: 32 word) = SaltLength ?ps" by (simp add: min.absorb2)
    from a have kl: "(of_nat (length ?hash) :: 32 word) = KeyLength ?ps" by simp
    have "decodeHash encodedHash = Inr (?ps, ?salt, ?hash)"
      unfolding e decodeHash_encode_hash sl kl by simp
    then show ?thesis by blast
  qed
qed


lemma sample_kdf_length: "length (sample_kdf password salt time memory threads keyLen) = unat keyLen"
proof -
  have "unat keyLen \<le> unat keyLen * length (salt @ password @ ''#'')" by simp
  then show ?thesis by (simp add: sample_kdf_def length_concat sum_list_replicate)
qed

lemma Itoa_99: "Itoa 99 = ''99''"
  by code_simp

lemma sample_HashPassword:
  "HashPassword sample_kdf ''TestPassword'' None ''0123456789abcdef''
     = Inr ''$argon2id$v=19$m=65536,t=3,p=4$MDEyMzQ1Njc4OWFiY2RlZg$MDEyMzQ1Njc4OWFiY2RlZlRlc3RQYXNzd29yZCMwMTI''"
  by code_simp

theorem C7_decodeHash_witness:
  "decodeHash ''invalid-hash-format'' = Inl ErrInvalidHash
   \<and> decodeHash ''$argon2i$v=19$m=65536,t=3,p=4$c29tZXNhbHQ$aGFzaA'' = Inl ErrInvalidHash
   \<and> decodeHash ''$argon2id$v=99$m=65536,t=3,p=4$c29tZXNhbHQ$hash'' = Inl ErrIncompatibleVersion
   \<and> (\<exists>salt hash.
        decodeHash ''$argon2id$v=19$m=65536,t=3,p=4$MDEyMzQ1Njc4OWFiY2RlZg$MDEyMzQ1Njc4OWFiY2RlZlRlc3RQYXNzd29yZCMwMTI''
          = Inr (DefaultArgon2Params, salt, hash))"
  using
    C7_decodeHash[where s = "''invalid-hash-format''"]
    C7_decodeHash[where s = "''$argon2i$v=19$m=65536,t=3,p=4$c29tZXNhbHQ$aGFzaA''"]
    C7_decodeHash[where s = "''$argon2id$v=99$m=65536,t=3,p=4$c29tZXNhbHQ$hash''" and v = 99]
    C7_decodeHash[where idkey = sample_kdf and password = "''TestPassword''" and params = None
      and entropy = "''0123456789abcdef''"
      and encodedHash = "''$argon2id$v=19$m=65536,t=3,p=4$MDEyMzQ1Njc4OWFiY2RlZg$MDEyMzQ1Njc4OWFiY2RlZlRlc3RQYXNzd29yZCMwMTI''"]
  by (simp add: Itoa_99 sample_HashPassword sample_kdf_length params_or_default_def argon2_Version_def)

subsection \<open>Hashing and verifying\<close>

lemma VerifyPassword_encode_hash:
  assumes "\<not> (t < 1 \<or> p < 1)"
  shows "VerifyPassword idkey other (encode_hash m t p salt hash)
           = Inr (hash = idkey other salt t m p (of_nat (length hash)))"
  using assms
  by (simp add: VerifyPassword_def decodeHash_encode_hash argon2_IDKey_def ConstantTimeCompare_def)

lemma encode_hash_inject:
  assumes "encode_hash m t p salt hash = encode_hash m' t' p' salt' hash'"
  shows "salt = salt' \<and> hash = hash'"
proof -
  have "decodeHash (encode_hash m t p salt hash) = decodeHash (encode_hash m' t' p' salt' hash')"
    using assms by simp
  then show ?thesis unfolding decodeHash_encode_hash by simp
qed

text \<open>
  Claim C3, as amended. Let \<open>HashPassword\<close> return a string for a password, and let
  Argon2 return keys of the length asked for. Then \<open>VerifyPassword\<close> with that password
  returns true and no error; with any other password it returns no error and the
  answer is true exactly when Argon2 derives the same key for both passwords under the
  stored salt and parameters (false whenever the keys differ); and a second
  \<open>HashPassword\<close> of the same password with the same parameters returns the same string
  exactly when it drew the same salt, and its string verifies too.
\<close>

theorem C3_hash_then_verify:
  assumes "\<forall>pw salt t m p k. length (idkey pw salt t m p k) = unat k"
    and "HashPassword idkey password params entropy = Inr encodedHash"
  shows "VerifyPassword idkey password encodedHash = Inr True
     \<and> VerifyPassword idkey other encodedHash
         = Inr (idkey other (take (unat (SaltLength (params_or_default params))) entropy)
                  (Iterations (params_or_default params)) (Memory (params_or_default params))
                  (Parallelism (params_or_default params)) (KeyLength (params_or_default params))
                = idkey password (take (unat (SaltLength (params_or_default params))) entropy)
                  (Iterations (params_or_default params)) (Memory (params_or_default params))
                  (Parallelism (params_or_default params)) (KeyLength (params_or_default params)))
     \<and> (HashPassword idkey password params entropy' = Inr encodedHash' \<longrightarrow>
          (encodedHash' = encodedHash
             \<longleftrightarrow> take (unat (SaltLength (params_or_default params))) entropy'
                 = take (unat (SaltLength (params_or_default params))) entropy)
          \<and> VerifyPassword idkey password encodedHash' = Inr True)"
proof -
  let ?ps = "params_or_default params"
  let ?key = "\<lambda>pw e. idkey pw (take (unat (SaltLength ?ps)) e)
                 (Iterations ?ps) (Memory ?ps) (Parallelism ?ps) (KeyLength ?ps)"
  have len: "(of_nat (length (idkey pw salt t m p k)) :: 32 word) = k" for pw salt t m p k
    using assms(1) by simp
  have verify: "VerifyPassword idkey pw h = Inr (?key pw e = ?key password e)"
    if "HashPassword idkey password params e = Inr h" for pw e h
  proof -
    have h: "h = encode_hash (Memory ?ps) (Iterations ?ps) (Parallelism ?ps)
                   (take (unat (SaltLength ?ps)) e) (?key password e)"
      using HashPassword_Inr(1)[OF that] .
    have np: "\<not> (Iterations ?ps < 1 \<or> Parallelism ?ps < 1)"
      using HashPassword_Inr(3)[OF that] .
    show ?thesis
      unfolding h VerifyPassword_encode_hash[OF np] len by (simp add: eq_commute)
  qed
  have 1: "VerifyPassword idkey password encodedHash = Inr True"
    using verify[OF assms(2), of password] by simp
  have 2: "VerifyPassword idkey other encodedHash = Inr (?key other entropy = ?key password entropy)"
    using verify[OF assms(2), of other] .
  have 3: "(encodedHash' = encodedHash
             \<longleftrightarrow> take (unat (SaltLength ?ps)) entropy' = take (unat (SaltLength ?ps)) entropy)
          \<and> VerifyPassword idkey password encodedHash' = Inr True"
    if h': "HashPassword idkey password params entropy' = Inr encodedHash'"
  proof
    have e: "encodedHash = encode_hash (Memory ?ps) (Iterations ?ps) (Parallelism ?ps)
                   (take (unat (SaltLength ?ps)) entropy) (?key password entropy)"
      using HashPassword_Inr(1)[OF assms(2)] .
    have e': "encodedHash' = encode_hash (Memory ?ps) (Iterations ?ps) (Parallelism ?ps)
                   (take (unat (SaltLength ?ps)) entropy') (?key password entropy')"
      using HashPassword_Inr(1)[OF h'] .
    show "encodedHash' = encodedHash
             \<longleftrightarrow> take (unat (SaltLength ?ps)) entropy' = take (unat (SaltLength ?ps)) entropy"
    proof
      assume "encodedHash' = encodedHash"
      with e e' show "take (unat (SaltLength ?ps)) entropy' = take (unat (SaltLength ?ps)) entropy"
        using encode_hash_inject by metis
    next
      assume "take (unat (SaltLength ?ps)) entropy' = take (unat (SaltLength ?ps)) entropy"
      with e e' show "encodedHash' = encodedHash" by simp
    qed
    show "VerifyPassword idkey password encodedHash' = Inr True"
      using verify[OF h', of password] by simp
  qed
  from 1 2 3 show ?thesis by blast
qed



lemma sample_hashes:
  "HashPassword sample_kdf ''SecureP@ssw0rd'' None ''0123456789abcdefgh''
     = Inr ''$argon2id$v=19$m=65536,t=3,p=4$MDEyMzQ1Njc4OWFiY2RlZg$MDEyMzQ1Njc4OWFiY2RlZlNlY3VyZVBAc3N3MHJkIzA''"
  "HashPassword sample_kdf ''SecureP@ssw0rd'' None ''fedcba9876543210''
     = Inr ''$argon2id$v=19$m=65536,t=3,p=4$ZmVkY2JhOTg3NjU0MzIxMA$ZmVkY2JhOTg3NjU0MzIxMFNlY3VyZVBAc3N3MHJkI2Y''"
  by code_simp+

lemma sample_wrong_password:
  "VerifyPassword sample_kdf ''WrongPassword''
     ''$argon2id$v=19$m=65536,t=3,p=4$MDEyMzQ1Njc4OWFiY2RlZg$MDEyMzQ1Njc4OWFiY2RlZlNlY3VyZVBAc3N3MHJkIzA''
   = Inr False"
  by code_simp

theorem C3_hash_then_verify_witness:
  "VerifyPassword sample_kdf ''SecureP@ssw0rd''
     ''$argon2id$v=19$m=65536,t=3,p=4$MDEyMzQ1Njc4OWFiY2RlZg$MDEyMzQ1Njc4OWFiY2RlZlNlY3VyZVBAc3N3MHJkIzA''
     = Inr True
   \<and> VerifyPassword sample_kdf ''WrongPassword''
     ''$argon2id$v=19$m=65536,t=3,p=4$MDEyMzQ1Njc4OWFiY2RlZg$MDEyMzQ1Njc4OWFiY2RlZlNlY3VyZVBAc3N3MHJkIzA''
     = Inr False
   \<and> VerifyPassword sample_kdf ''SecureP@ssw0rd''
     ''$argon2id$v=19$m=65536,t=3,p=4$ZmVkY2JhOTg3NjU0MzIxMA$ZmVkY2JhOTg3NjU0MzIxMFNlY3VyZVBAc3N3MHJkI2Y''
     = Inr True"
  using C3_hash_then_verify[where idkey = sample_kdf and password = "''SecureP@ssw0rd''"
      and params = None and entropy = "''0123456789abcdefgh''" and other = "''WrongPassword''"
      and entropy' = "''fedcba9876543210''"
      and encodedHash = "''$argon2id$v=19$m=65536,t=3,p=4$MDEyMzQ1Njc4OWFiY2RlZg$MDEyMzQ1Njc4OWFiY2RlZlNlY3VyZVBAc3N3MHJkIzA''"
      and encodedHash' = "''$argon2id$v=19$m=65536,t=3,p=4$ZmVkY2JhOTg3NjU0MzIxMA$ZmVkY2JhOTg3NjU0MzIxMFNlY3VyZVBAc3N3MHJkI2Y''"]
    sample_wrong_password
  by (simp add: sample_kdf_length sample_hashes)

text \<open>
  With a salt length of zero the salt is empty whatever the random source delivers, so
  two invocations return the same string; this holds for every key derivation function.
\<close>

lemma HashPassword_no_salt:
  assumes "SaltLength (params_or_default params) = 0"
  shows "HashPassword idkey password params entropy = HashPassword idkey password params entropy'"
  using assms by (simp add: HashPassword_def rand_Read_def Let_def)

text \<open>
  The claim as it was stated fails for the custom parameter set with salt length 0: two
  invocations with different random sources return byte-equal strings.
\<close>

theorem C3_hash_then_verify_counterexample:
  "HashPassword sample_kdf ''SecureP@ssw0rd''
     (Some \<lparr> Memory = 65536, Iterations = 3, Parallelism = 4, SaltLength = 0, KeyLength = 32 \<rparr>)
     ''first draw''
     = Inr ''$argon2id$v=19$m=65536,t=3,p=4$$U2VjdXJlUEBzc3cwcmQjU2VjdXJlUEBzc3cwcmQjU2U''
   \<and> HashPassword sample_kdf ''SecureP@ssw0rd''
     (Some \<lparr> Memory = 65536, Iterations = 3, Parallelism = 4, SaltLength = 0, KeyLength = 32 \<rparr>)
     ''second draw''
     = Inr ''$argon2id$v=19$m=65536,t=3,p=4$$U2VjdXJlUEBzc3cwcmQjU2VjdXJlUEBzc3cwcmQjU2U''"
  by code_simp

section \<open>Rate limiting (pkg/security/ratelimit.go)\<close>

subsection \<open>The sorted sets of the key-value store\<close>

text \<open>
  A sorted set maps members to scores; a member occurs once. The limiter stores the
  unix time in seconds both as member and as score. \<open>ZADD\<close> of a member that is
  already in the set replaces its score and adds nothing; \<open>ZREMRANGEBYSCORE\<close>
  removes the members whose score lies in the closed range; \<open>ZCARD\<close> counts the
  members; \<open>EXPIRE\<close> sets the time to live of the key.
\<close>

type_synonym zset = "(int \<times> int) list"

fun ZAdd :: "int \<Rightarrow> int \<Rightarrow> zset \<Rightarrow> zset" where
  "ZAdd member score [] = [(member, score)]"
| "ZAdd member score ((m, s) # zs) =
     (if m = member then (member, score) # zs else (m, s) # ZAdd member score zs)"

definition ZRemRangeByScore :: "int \<Rightarrow> int \<Rightarrow> zset \<Rightarrow> zset" where
  "ZRemRangeByScore lo hi zs = filter (\<lambda>(m, s). \<not> (lo \<le> s \<and> s \<le> hi)) zs"

definition ZCard :: "zset \<Rightarrow> int" where
  "ZCard zs = int (length zs)"

record Redis =
  zsets :: "string \<Rightarrow> zset"
  ttl :: "string \<Rightarrow> int option"

text \<open>
  Whether each of the four commands of one \<open>CheckRateLimit\<close> call reaches the store
  and is answered. A command that fails leaves the store as it is.
\<close>

record Connection =
  zremrangebyscore_ok :: bool
  zcard_ok :: bool
  zadd_ok :: bool
  expire_ok :: bool

subsection \<open>The limiter\<close>

datatype ratelimit_error = ErrRateLimitExceeded

definition DefaultRateLimit :: int where "DefaultRateLimit = 100"

text \<open>Durations are nanoseconds, as in \<open>time.Duration\<close>.\<close>

definition Second :: int where "Second = 1000000000"
definition Minute :: int where "Minute = 60 * Second"
definition DefaultRateInterval :: int where "DefaultRateInterval = Minute"

record RateLimiterConfig =
  Limit :: int
  Interval :: int
  SkipSuccessfulAuth :: bool

record RateLimiter =
  limit :: int
  interval :: int
  skipAuth :: bool

definition NewRateLimiter :: "RateLimiterConfig \<Rightarrow> RateLimiter" where
  "NewRateLimiter config =
     (let config = (if Limit config \<le> 0 then config\<lparr> Limit := DefaultRateLimit \<rparr> else config);
          config = (if Interval config \<le> 0 then config\<lparr> Interval := DefaultRateInterval \<rparr> else config)
      in \<lparr> limit = Limit config, interval = Interval config, skipAuth = SkipSuccessfulAuth config \<rparr>)"

text \<open>
  The request as the limiter reads it: the header, the remote address and the path of
  the URL. \<open>net.SplitHostPort\<close> enters as the parameter \<open>SplitHostPort\<close>, which gives the
  host or fails.
\<close>

record ClientRequest = Request +
  RemoteAddr :: string
  URL_Path :: string

definition getIPAddress :: "(string \<Rightarrow> string option) \<Rightarrow> ClientRequest \<Rightarrow> string" where
  "getIPAddress SplitHostPort r =
     (if Header_Get r ''X-Forwarded-For'' \<noteq> [] then
        (case Split (CHR '','') (Header_Get r ''X-Forwarded-For'') of
           ip # ips \<Rightarrow> TrimSpace ip
         | [] \<Rightarrow> (if Header_Get r ''X-Real-IP'' \<noteq> [] then Header_Get r ''X-Real-IP''
                  else (case SplitHostPort (RemoteAddr r) of None \<Rightarrow> RemoteAddr r | Some ip \<Rightarrow> ip)))
      else if Header_Get r ''X-Real-IP'' \<noteq> [] then Header_Get r ''X-Real-IP''
      else (case SplitHostPort (RemoteAddr r) of None \<Rightarrow> RemoteAddr r | Some ip \<Rightarrow> ip))"

definition getLimitKey :: "(string \<Rightarrow> string option) \<Rightarrow> ClientRequest \<Rightarrow> string" where
  "getLimitKey SplitHostPort r =
     ''ratelimit:'' @ getIPAddress SplitHostPort r @ '':'' @ URL_Path r"

text \<open>
  \<open>int64(rl.interval.Seconds())\<close>: the whole seconds of the interval (the conversion
  goes through a float, which is exact for the intervals a limiter is configured with).
\<close>

definition Seconds :: "int \<Rightarrow> int" where
  "Seconds d = d div Second"

text \<open>
  \<open>CheckRateLimit\<close> at the unix time \<open>now\<close>, on the store \<open>redis\<close>: the count and
  the error returned, and the store afterwards.
\<close>

definition CheckRateLimit ::
  "RateLimiter \<Rightarrow> Connection \<Rightarrow> int \<Rightarrow> string \<Rightarrow> Redis \<Rightarrow> (int \<times> ratelimit_error option) \<times> Redis" where
  "CheckRateLimit rl conn now key redis =
     (let windowStart = now - Seconds (interval rl)
      in if \<not> zremrangebyscore_ok conn then ((0, None), redis)
         else
           (let redis = redis\<lparr> zsets := (zsets redis)(key := ZRemRangeByScore 0 windowStart (zsets redis key)) \<rparr>
            in if \<not> zcard_ok conn then ((0, None), redis)
               else
                 (let count = ZCard (zsets redis key)
                  in if count \<ge> limit rl then ((count, Some ErrRateLimitExceeded), redis)
                     else
                       (let redis = (if zadd_ok conn
                                     then redis\<lparr> zsets := (zsets redis)(key := ZAdd now now (zsets redis key)) \<rparr>
                                     else redis);
                            redis = (if expire_ok conn
                                     then redis\<lparr> ttl := (ttl redis)(key := Some (interval rl + Minute)) \<rparr>
                                     else redis)
                        in ((count + 1, None), redis)))))"

definition all_ok :: Connection where
  "all_ok = \<lparr> zremrangebyscore_ok = True, zcard_ok = True, zadd_ok = True, expire_ok = True \<rparr>"

subsection \<open>What a call does\<close>

lemma CheckRateLimit_fail_open:
  "\<not> zremrangebyscore_ok conn \<or> \<not> zcard_ok conn \<Longrightarrow>
     fst (CheckRateLimit rl conn now key redis) = (0, None)"
  by (auto simp: CheckRateLimit_def Let_def)

lemma CheckRateLimit_exceeded:
  assumes "zremrangebyscore_ok conn" "zcard_ok conn"
    and "ZCard (ZRemRangeByScore 0 (now - Seconds (interval rl)) (zsets redis key)) \<ge> limit rl"
  shows "CheckRateLimit rl conn now key redis =
    ((ZCard (ZRemRangeByScore 0 (now - Seconds (interval rl)) (zsets redis key)), Some ErrRateLimitExceeded),
     redis\<lparr> zsets := (zsets redis)(key := ZRemRangeByScore 0 (now - Seconds (interval rl)) (zsets redis key)) \<rparr>)"
  using assms by (simp add: CheckRateLimit_def Let_def)

lemma CheckRateLimit_admitted:
  assumes "zremrangebyscore_ok conn" "zcard_ok conn" "zadd_ok conn" "expire_ok conn"
    and "ZCard (ZRemRangeByScore 0 (now - Seconds (interval rl)) (zsets redis key)) < limit rl"
  shows "CheckRateLimit rl conn now key redis =
    ((ZCard (ZRemRangeByScore 0 (now - Seconds (interval rl)) (zsets redis key)) + 1, None),
     redis\<lparr> zsets := (zsets redis)
                (key := ZAdd now now (ZRemRangeByScore 0 (now - Seconds (interval rl)) (zsets redis key))),
            ttl := (ttl redis)(key := Some (interval rl + Minute)) \<rparr>)"
  using assms by (simp add: CheckRateLimit_def Let_def)

lemma ZAdd_member: "(member, score) \<in> set (ZAdd member score zs)"
  by (induction zs) auto

lemma ZAdd_length_new: "member \<notin> fst ` set zs \<Longrightarrow> length (ZAdd member score zs) = length zs + 1"
  by (induction zs) auto

lemma ZAdd_length_old: "member \<in> fst ` set zs \<Longrightarrow> length (ZAdd member score zs) = length zs"
  by (induction zs) force+

lemma ZAdd_length:
  "length (ZAdd member score zs) = (if member \<in> fst ` set zs then length zs else length zs + 1)"
  using ZAdd_length_new ZAdd_length_old by simp

definition sample_limiter :: RateLimiter where
  "sample_limiter = NewRateLimiter \<lparr> Limit = 0, Interval = 0, SkipSuccessfulAuth = False \<rparr>"

definition sample_store :: Redis where
  "sample_store =
     \<lparr> zsets = (\<lambda>k. [])(''ratelimit:203.0.113.7:/login'' := [(1700000000, 1700000000)]),
       ttl = (\<lambda>k. None)(''ratelimit:203.0.113.7:/login'' := Some (2 * Minute)) \<rparr>"


text \<open>
  The parts of the contract that hold on every call: the limiter fails open when the
  pruning or the counting command fails; at or above the limit it reports
  RateLimitExceeded with the count and adds nothing; below the limit it returns the
  count plus one, sets the time to live to the interval plus one minute, and the
  current second is a member afterwards. The set grows only when that second was not
  stored before.
\<close>

theorem CheckRateLimit_contract:
  "(\<not> zremrangebyscore_ok conn \<or> \<not> zcard_ok conn \<longrightarrow>
      fst (CheckRateLimit rl conn now key redis) = (0, None))
   \<and> (zremrangebyscore_ok conn \<and> zcard_ok conn
        \<and> ZCard (ZRemRangeByScore 0 (now - Seconds (interval rl)) (zsets redis key)) \<ge> limit rl \<longrightarrow>
        CheckRateLimit rl conn now key redis =
          ((ZCard (ZRemRangeByScore 0 (now - Seconds (interval rl)) (zsets redis key)),
            Some ErrRateLimitExceeded),
           redis\<lparr> zsets := (zsets redis)
             (key := ZRemRangeByScore 0 (now - Seconds (interval rl)) (zsets redis key)) \<rparr>))
   \<and> (zremrangebyscore_ok conn \<and> zcard_ok conn \<and> zadd_ok conn \<and> expire_ok conn
        \<and> ZCard (ZRemRangeByScore 0 (now - Seconds (interval rl)) (zsets redis key)) < limit rl \<longrightarrow>
        fst (CheckRateLimit rl conn now key redis) =
          (ZCard (ZRemRangeByScore 0 (now - Seconds (interval rl)) (zsets redis key)) + 1, None)
        \<and> ttl (snd (CheckRateLimit rl conn now key redis)) key = Some (interval rl + Minute)
        \<and> (now, now) \<in> set (zsets (snd (CheckRateLimit rl conn now key redis)) key)
        \<and> ZCard (zsets (snd (CheckRateLimit rl conn now key redis)) key) =
            (if now \<in> fst ` set (ZRemRangeByScore 0 (now - Seconds (interval rl)) (zsets redis key))
             then ZCard (ZRemRangeByScore 0 (now - Seconds (interval rl)) (zsets redis key))
             else ZCard (ZRemRangeByScore 0 (now - Seconds (interval rl)) (zsets redis key)) + 1))"
proof (intro conjI impI)
  assume "\<not> zremrangebyscore_ok conn \<or> \<not> zcard_ok conn"
  then show "fst (CheckRateLimit rl conn now key redis) = (0, None)"
    by (rule CheckRateLimit_fail_open)
next
  assume "zremrangebyscore_ok conn \<and> zcard_ok conn
        \<and> ZCard (ZRemRangeByScore 0 (now - Seconds (interval rl)) (zsets redis key)) \<ge> limit rl"
  then show "CheckRateLimit rl conn now key redis =
          ((ZCard (ZRemRangeByScore 0 (now - Seconds (interval rl)) (zsets redis key)),
            Some ErrRateLimitExceeded),
           redis\<lparr> zsets := (zsets redis)
             (key := ZRemRangeByScore 0 (now - Seconds (interval rl)) (zsets redis key)) \<rparr>)"
    by (simp add: CheckRateLimit_exceeded)
next
  assume a: "zremrangebyscore_ok conn \<and> zcard_ok conn \<and> zadd_ok conn \<and> expire_ok conn
        \<and> ZCard (ZRemRangeByScore 0 (now - Seconds (interval rl)) (zsets redis key)) < limit rl"
  then have c: "CheckRateLimit rl conn now key redis =
    ((ZCard (ZRemRangeByScore 0 (now - Seconds (interval rl)) (zsets redis key)) + 1, None),
     redis\<lparr> zsets := (zsets redis)
                (key := ZAdd now now (ZRemRangeByScore 0 (now - Seconds (interval rl)) (zsets redis key))),
            ttl := (ttl redis)(key := Some (interval rl + Minute)) \<rparr>)"
    by (simp add: CheckRateLimit_admitted)
  show "fst (CheckRateLimit rl conn now key redis) =
          (ZCard (ZRemRangeByScore 0 (now - Seconds (interval rl)) (zsets redis key)) + 1, None)"
    by (simp add: c)
  show "ttl (snd (CheckRateLimit rl conn now key redis)) key = Some (interval rl + Minute)"
    by (simp add: c)
  show "(now, now) \<in> set (zsets (snd (CheckRateLimit rl conn now key redis)) key)"
    by (simp add: c ZAdd_member)
  show "ZCard (zsets (snd (CheckRateLimit rl conn now key redis)) key) =
            (if now \<in> fst ` set (ZRemRangeByScore 0 (now - Seconds (interval rl)) (zsets redis key))
             then ZCard (ZRemRangeByScore 0 (now - Seconds (interval rl)) (zsets redis key))
             else ZCard (ZRemRangeByScore 0 (now - Seconds (interval rl)) (zsets redis key)) + 1)"
    by (simp add: c ZCard_def ZAdd_length)
qed

lemma sample_limiter_value:
  "sample_limiter = \<lparr> limit = 100, interval = 60000000000, skipAuth = False \<rparr>"
  by (simp add: sample_limiter_def NewRateLimiter_def DefaultRateLimit_def DefaultRateInterval_def
        Minute_def Second_def)

theorem CheckRateLimit_contract_witness:
  "fst (CheckRateLimit sample_limiter (all_ok\<lparr> zcard_ok := False \<rparr>) 1700000001
          ''ratelimit:203.0.113.7:/login'' sample_store) = (0, None)
   \<and> fst (CheckRateLimit (sample_limiter\<lparr> limit := 1 \<rparr>) all_ok 1700000001
          ''ratelimit:203.0.113.7:/login'' sample_store) = (1, Some ErrRateLimitExceeded)
   \<and> fst (CheckRateLimit sample_limiter all_ok 1700000001
          ''ratelimit:203.0.113.7:/login'' sample_store) = (2, None)
   \<and> ttl (snd (CheckRateLimit sample_limiter all_ok 1700000001
          ''ratelimit:203.0.113.7:/login'' sample_store)) ''ratelimit:203.0.113.7:/login''
       = Some 120000000000"
  using
    CheckRateLimit_contract[of "all_ok\<lparr> zcard_ok := False \<rparr>" sample_limiter 1700000001
      "''ratelimit:203.0.113.7:/login''" sample_store]
    CheckRateLimit_contract[of all_ok "sample_limiter\<lparr> limit := 1 \<rparr>" 1700000001
      "''ratelimit:203.0.113.7:/login''" sample_store]
    CheckRateLimit_contract[of all_ok sample_limiter 1700000001
      "''ratelimit:203.0.113.7:/login''" sample_store]
  by (simp add: sample_limiter_value all_ok_def sample_store_def ZCard_def ZRemRangeByScore_def
        Seconds_def Second_def Minute_def)

text \<open>
  Claim C5. Below the limit, \<open>CheckRateLimit\<close> is expected to add the current
  timestamp as a new member and to return the count plus one. The member is the unix
  time in seconds, so a second request of the same client and path within the same
  second finds its member already stored: the call returns 2, and no member was added.
\<close>

theorem C5_same_second_request:
  "fst (CheckRateLimit sample_limiter all_ok 1700000000 ''ratelimit:203.0.113.7:/login'' sample_store)
     = (2, None)
   \<and> zsets (snd (CheckRateLimit sample_limiter all_ok 1700000000
                   ''ratelimit:203.0.113.7:/login'' sample_store)) ''ratelimit:203.0.113.7:/login''
     = [(1700000000, 1700000000)]
   \<and> zsets sample_store ''ratelimit:203.0.113.7:/login'' = [(1700000000, 1700000000)]"
  by (simp add: CheckRateLimit_def sample_limiter_value all_ok_def sample_store_def ZCard_def
        ZRemRangeByScore_def Seconds_def Second_def Minute_def Let_def)


subsection \<open>Requests that share a second\<close>

text \<open>
  The sets the limiter builds: members are distinct, every member is its own score, and
  none lies before 1970 or after the current second.
\<close>

definition limiter_set :: "int \<Rightarrow> zset \<Rightarrow> bool" where
  "limiter_set now zs =
     (distinct (map fst zs) \<and> list_all (\<lambda>(m, s). m = s \<and> 0 \<le> m \<and> m \<le> now) zs)"

lemma ZAdd_map_fst:
  "map fst (ZAdd member score zs)
     = (if member \<in> set (map fst zs) then map fst zs else map fst zs @ [member])"
proof (induction zs)
  case Nil
  then show ?case by simp
next
  case (Cons z zs)
  obtain m s where z: "z = (m, s)" by (cases z)
  show ?case
  proof (cases "m = member")
    case True
    then show ?thesis by (simp add: z)
  next
    case False
    then show ?thesis using Cons by (simp add: z)
  qed
qed

lemma ZAdd_distinct: "distinct (map fst zs) \<Longrightarrow> distinct (map fst (ZAdd member score zs))"
  by (simp add: ZAdd_map_fst)

lemma ZAdd_all: "list_all P zs \<Longrightarrow> P (member, score) \<Longrightarrow> list_all P (ZAdd member score zs)"
  by (induction zs) auto

lemma ZRem_distinct: "distinct (map fst zs) \<Longrightarrow> distinct (map fst (ZRemRangeByScore lo hi zs))"
  by (simp add: ZRemRangeByScore_def distinct_map_filter)

lemma ZRem_all: "list_all P zs \<Longrightarrow> list_all P (ZRemRangeByScore lo hi zs)"
  by (induction zs) (auto simp: ZRemRangeByScore_def)

lemma limiter_set_step:
  assumes "limiter_set now (zsets redis key)" "now \<le> now'" "0 \<le> now'"
  shows "limiter_set now' (zsets (snd (CheckRateLimit rl conn now' key redis)) key)"
proof -
  have up: "limiter_set now' zs" if "limiter_set now zs" for zs
    using that assms(2) by (auto simp: limiter_set_def list_all_iff)
  have rem: "limiter_set now' (ZRemRangeByScore lo hi zs)" if "limiter_set now' zs" for zs lo hi
    using that by (simp add: limiter_set_def ZRem_distinct ZRem_all)
  have add: "limiter_set now' (ZAdd now' now' zs)" if "limiter_set now' zs" for zs
    using that assms(3) by (simp add: limiter_set_def ZAdd_distinct ZAdd_all)
  show ?thesis
    using up[OF assms(1)] rem add by (auto simp: CheckRateLimit_def Let_def)
qed

lemma window_count:
  assumes "limiter_set now zs" "0 \<le> w" "0 \<le> now - w"
  shows "ZCard (ZRemRangeByScore 0 (now - w) zs) \<le> w"
proof -
  let ?zs = "ZRemRangeByScore 0 (now - w) zs"
  have d: "distinct (map fst ?zs)" using assms(1) by (simp add: limiter_set_def ZRem_distinct)
  have "set (map fst ?zs) \<subseteq> {now - w + 1 .. now}"
    using assms by (auto simp: limiter_set_def ZRemRangeByScore_def list_all_iff)
  then have "card (set (map fst ?zs)) \<le> card {now - w + 1 .. now}"
    by (intro card_mono) simp_all
  moreover have "card (set (map fst ?zs)) = length ?zs"
    using d distinct_card[of "map fst ?zs"] by simp
  ultimately show ?thesis using assms(2) by (simp add: ZCard_def)
qed

text \<open>
  A consequence for the default limiter (100 requests a minute): its set never holds
  more than 60 members, so however many requests arrive it never reports
  RateLimitExceeded.
\<close>

theorem default_limit_never_reached:
  assumes "limiter_set now (zsets redis key)" and "60 \<le> now"
  shows "snd (fst (CheckRateLimit sample_limiter conn now key redis)) = None
     \<and> limiter_set now (zsets (snd (CheckRateLimit sample_limiter conn now key redis)) key)"
proof
  have "ZCard (ZRemRangeByScore 0 (now - 60) (zsets redis key)) \<le> 60"
    using window_count[OF assms(1), of 60] assms(2) by simp
  then show "snd (fst (CheckRateLimit sample_limiter conn now key redis)) = None"
    by (simp add: CheckRateLimit_def sample_limiter_value Seconds_def Second_def Let_def)
  show "limiter_set now (zsets (snd (CheckRateLimit sample_limiter conn now key redis)) key)"
    using limiter_set_step[OF assms(1), of now] assms(2) by simp
qed

lemma sample_store_limiter_set:
  "limiter_set 1700000000 (zsets sample_store ''ratelimit:203.0.113.7:/login'')"
  by (simp add: limiter_set_def sample_store_def)

theorem default_limit_never_reached_witness:
  "snd (fst (CheckRateLimit sample_limiter all_ok 1700000000 ''ratelimit:203.0.113.7:/login''
               sample_store)) = None"
  using default_limit_never_reached[of 1700000000 sample_store "''ratelimit:203.0.113.7:/login''" all_ok]
    sample_store_limiter_set
  by simp

end
